theory Spec2Isabelle
  imports Complex_Main "HOL-Library.AList"
begin

section \<open>JavaScript values\<close>

text \<open>
  The server (\<^verbatim>\<open>server.js\<close>) handles values produced by \<^verbatim>\<open>JSON.parse\<close> and builds
  object literals that it hands to \<^verbatim>\<open>JSON.stringify\<close>. A JavaScript number is a finite
  value, one of the two infinities, or NaN (\<^verbatim>\<open>JSON.parse("1e999")\<close> is \<^verbatim>\<open>Infinity\<close>). A finite
  number is kept as the rational it denotes. A string is a list of characters, one per
  code unit, so \<open>length\<close> is the \<^verbatim>\<open>.length\<close> of the source. An object is the list of its own
  properties, each key once; the order of the list carries no meaning (the runtime
  enumerates integer-like keys first). \<open>JUndefined\<close> is what reading a missing property
  gives.
\<close>

datatype jsnum = Fin rat | PosInf | NegInf | NaN

datatype json =
    JUndefined
  | JNull
  | JBool bool
  | JNum jsnum
  | JStr string
  | JArr "json list"
  | JObj "(string \<times> json) list"

text \<open>Truthiness, as tested by \<^verbatim>\<open>!v\<close>, \<^verbatim>\<open>v || d\<close> and \<^verbatim>\<open>if (v)\<close>.\<close>

fun js_truthy :: "json \<Rightarrow> bool" where
  "js_truthy JUndefined = False"
| "js_truthy JNull = False"
| "js_truthy (JBool b) = b"
| "js_truthy (JNum n) = (n \<noteq> Fin 0 \<and> n \<noteq> NaN)"
| "js_truthy (JStr s) = (s \<noteq> [])"
| "js_truthy (JArr xs) = True"
| "js_truthy (JObj kvs) = True"

text \<open>
  Property read \<^verbatim>\<open>v.k\<close> on a value that is neither \<^verbatim>\<open>undefined\<close> nor \<^verbatim>\<open>null\<close>. Only the
  property names the server reads are of interest: data properties of parsed objects, and
  \<^verbatim>\<open>length\<close> of strings and arrays.
\<close>

fun js_get :: "json \<Rightarrow> string \<Rightarrow> json" where
  "js_get (JObj kvs) k = (case map_of kvs k of Some v \<Rightarrow> v | None \<Rightarrow> JUndefined)"
| "js_get (JStr s) k = (if k = ''length'' then JNum (Fin (of_nat (length s))) else JUndefined)"
| "js_get (JArr xs) k = (if k = ''length'' then JNum (Fin (of_nat (length xs))) else JUndefined)"
| "js_get v k = JUndefined"

text \<open>\<^verbatim>\<open>typeof v === 'number'\<close>, and \<^verbatim>\<open>isNaN(v)\<close> for a \<open>v\<close> of type number (the only
  values the validators pass to it, since \<^verbatim>\<open>&&\<close> evaluates left to right).\<close>

fun typeof_number :: "json \<Rightarrow> bool" where
  "typeof_number (JNum n) = True"
| "typeof_number v = False"

fun js_isNaN :: "json \<Rightarrow> bool" where
  "js_isNaN (JNum n) = (n = NaN)"
| "js_isNaN v = False"

text \<open>
  The comparison \<^verbatim>\<open>v > 200\<close>. It converts \<open>v\<close> to a number first; the conversion of
  strings, arrays and objects belongs to the JavaScript runtime and is the parameter \<open>tn\<close>.
\<close>

fun js_ToNumber :: "(json \<Rightarrow> jsnum) \<Rightarrow> json \<Rightarrow> jsnum" where
  "js_ToNumber tn JUndefined = NaN"
| "js_ToNumber tn JNull = Fin 0"
| "js_ToNumber tn (JBool b) = Fin (if b then 1 else 0)"
| "js_ToNumber tn (JNum n) = n"
| "js_ToNumber tn v = tn v"

fun num_gt :: "jsnum \<Rightarrow> rat \<Rightarrow> bool" where
  "num_gt (Fin q) r = (r < q)"
| "num_gt PosInf r = True"
| "num_gt NegInf r = False"
| "num_gt NaN r = False"

definition js_gt :: "(json \<Rightarrow> jsnum) \<Rightarrow> json \<Rightarrow> rat \<Rightarrow> bool" where
  "js_gt tn v r = num_gt (js_ToNumber tn v) r"

text \<open>\<^verbatim>\<open>s.replace(/c/g, r)\<close> for a one-character pattern.\<close>

fun replace_all :: "char \<Rightarrow> string \<Rightarrow> string \<Rightarrow> string" where
  "replace_all c r [] = []"
| "replace_all c r (x # xs) = (if x = c then r @ replace_all c r xs else x # replace_all c r xs)"

text \<open>
  \<^verbatim>\<open>JSON.stringify(v)\<close>. The text it returns is kept as the value that text denotes, which
  is what the peer's \<^verbatim>\<open>JSON.parse\<close> reads: a number that is not finite is written \<^verbatim>\<open>null\<close>,
  a property whose value is \<^verbatim>\<open>undefined\<close> is left out, and an \<^verbatim>\<open>undefined\<close> array element is
  written \<^verbatim>\<open>null\<close>.
\<close>

fun written_number :: "jsnum \<Rightarrow> json" where
  "written_number (Fin q) = JNum (Fin q)"
| "written_number n = JNull"

primrec JSON_stringify :: "json \<Rightarrow> json" where
  "JSON_stringify JUndefined = JUndefined"
| "JSON_stringify JNull = JNull"
| "JSON_stringify (JBool b) = JBool b"
| "JSON_stringify (JNum n) = written_number n"
| "JSON_stringify (JStr s) = JStr s"
| "JSON_stringify (JArr xs) =
     JArr (map (\<lambda>v. if v = JUndefined then JNull else v) (map JSON_stringify xs))"
| "JSON_stringify (JObj kvs) =
     JObj (filter (\<lambda>(k, v). v \<noteq> JUndefined) (map (map_prod id JSON_stringify) kvs))"

text \<open>
  The values that \<^verbatim>\<open>JSON.stringify\<close> writes as they are: \<^verbatim>\<open>null\<close>, booleans, finite numbers,
  strings, and arrays and objects made of such values.
\<close>

primrec written_as_is :: "json \<Rightarrow> bool" where
  "written_as_is JUndefined = False"
| "written_as_is JNull = True"
| "written_as_is (JBool b) = True"
| "written_as_is (JNum n) = (case n of Fin q \<Rightarrow> True | _ \<Rightarrow> False)"
| "written_as_is (JStr s) = True"
| "written_as_is (JArr xs) = list_all id (map written_as_is xs)"
| "written_as_is (JObj kvs) = list_all snd (map (map_prod id written_as_is) kvs)"

section \<open>Transport handles\<close>

text \<open>
  Every connection owns a WebSocket object. The server reads its \<^verbatim>\<open>readyState\<close> and calls
  \<^verbatim>\<open>send\<close> on it; both belong to the environment. A handle is a number, and the store maps
  each handle to its ready state, to whether \<^verbatim>\<open>send\<close> raises on it, and to the frames sent
  through it so far, kept twice: \<open>delivered\<close> lists the objects the server built, in the
  order it serialised and sent them, and \<open>wire\<close> lists the serialised frames, which is what
  the peer receives.
\<close>

datatype ready = CONNECTING | OPEN | CLOSING | CLOSED

record wsock =
  readyState :: ready
  sendThrows :: bool
  delivered :: "json list"
  wire :: "json list"

type_synonym sockets = "nat \<Rightarrow> wsock"

text \<open>\<^verbatim>\<open>socket.send(JSON.stringify(d))\<close>: \<open>None\<close> when the call raises.\<close>

definition ws_send :: "nat \<Rightarrow> json \<Rightarrow> sockets \<Rightarrow> sockets option" where
  "ws_send h d ss =
     (if sendThrows (ss h) then None
      else Some (ss(h := (ss h)\<lparr>delivered := delivered (ss h) @ [d],
                               wire := wire (ss h) @ [JSON_stringify d]\<rparr>)))"

section \<open>Sessions and the registry\<close>

text \<open>
  \<^verbatim>\<open>playerData\<close> of the connection handler. \<^verbatim>\<open>landedPlanetId\<close> is not set at creation, so
  it reads as \<^verbatim>\<open>undefined\<close> until an \<^verbatim>\<open>alienMode\<close> message stores a value.
\<close>

record player =
  player_id :: string
  position :: json
  rotation :: json
  color :: json
  isAlienMode :: json
  landedPlanetId :: json
  lastUpdate :: int
  socket :: nat
  pingTime :: int

text \<open>
  The module-level state: the \<^verbatim>\<open>players\<close> Map in insertion order (\<^verbatim>\<open>Map.set\<close> is
  \<open>AList.update\<close>, which keeps the place of an existing key; \<^verbatim>\<open>Map.delete\<close> is
  \<open>AList.delete\<close>; \<^verbatim>\<open>Map.get\<close> is \<open>map_of\<close>), the counter \<^verbatim>\<open>nextColorIndex\<close>, and the
  store of transport handles.
\<close>

record server =
  players :: "(string \<times> player) list"
  nextColorIndex :: nat
  socks :: sockets

definition playerColors :: "string list" where
  "playerColors = [''#FF4136'', ''#0074D9'', ''#2ECC40'', ''#FFDC00'',
                   ''#B10DC9'', ''#FF851B'', ''#7FDBFF'', ''#F012BE'']"

definition SYNC_RATE :: int where
  "SYNC_RATE = 100"

definition timeout :: int where
  "timeout = 30000"

definition num :: "int \<Rightarrow> json" where
  "num i = JNum (Fin (of_int i))"

definition vec3 :: "int \<Rightarrow> int \<Rightarrow> int \<Rightarrow> json" where
  "vec3 x y z = JObj [(''x'', num x), (''y'', num y), (''z'', num z)]"

definition planets :: json where
  "planets = JArr
     [JObj [(''id'', JStr ''p1''), (''position'', vec3 1000 0 1000),
            (''size'', num 50), (''type'', JStr ''Rocky'')],
      JObj [(''id'', JStr ''p2''), (''position'', vec3 (- 1500) 200 (- 800)),
            (''size'', num 70), (''type'', JStr ''Gaseous'')],
      JObj [(''id'', JStr ''p3''), (''position'', vec3 800 (- 100) (- 1200)),
            (''size'', num 40), (''type'', JStr ''Molten'')]]"

text \<open>An uncaught exception leaves the handler with the state as it is at the throw.\<close>

datatype outcome = Returned | Threw

section \<open>Fan-out\<close>

text \<open>
  \<^verbatim>\<open>broadcastToAll\<close>: every send is inside its own \<^verbatim>\<open>try\<close>; a raising send is logged and
  the loop goes on. The loops of \<^verbatim>\<open>syncGameState\<close> (game state) and \<^verbatim>\<open>broadcastChat\<close> have
  the same body.
\<close>

fun broadcastToAll_loop :: "player list \<Rightarrow> json \<Rightarrow> sockets \<Rightarrow> sockets" where
  "broadcastToAll_loop [] d ss = ss"
| "broadcastToAll_loop (p # ps) d ss =
     broadcastToAll_loop ps d
       (if readyState (ss (socket p)) = OPEN
        then (case ws_send (socket p) d ss of Some ss' \<Rightarrow> ss' | None \<Rightarrow> ss)
        else ss)"

definition broadcastToAll :: "json \<Rightarrow> server \<Rightarrow> server" where
  "broadcastToAll d s = s\<lparr>socks := broadcastToAll_loop (map snd (players s)) d (socks s)\<rparr>"

text \<open>
  \<^verbatim>\<open>broadcastToOthers\<close>: the send is not inside a \<^verbatim>\<open>try\<close>, so a raising send leaves
  \<^verbatim>\<open>forEach\<close> and the function at once.
\<close>

fun broadcastToOthers_loop ::
  "string \<Rightarrow> (string \<times> player) list \<Rightarrow> json \<Rightarrow> sockets \<Rightarrow> outcome \<times> sockets" where
  "broadcastToOthers_loop ex [] d ss = (Returned, ss)"
| "broadcastToOthers_loop ex ((k, p) # kps) d ss =
     (if k \<noteq> ex \<and> readyState (ss (socket p)) = OPEN
      then (case ws_send (socket p) d ss of
              None \<Rightarrow> (Threw, ss)
            | Some ss' \<Rightarrow> broadcastToOthers_loop ex kps d ss')
      else broadcastToOthers_loop ex kps d ss)"

definition broadcastToOthers :: "string \<Rightarrow> json \<Rightarrow> server \<Rightarrow> outcome \<times> server" where
  "broadcastToOthers excludePlayerId d s =
     (case broadcastToOthers_loop excludePlayerId (players s) d (socks s) of
        (r, ss) \<Rightarrow> (r, s\<lparr>socks := ss\<rparr>))"

text \<open>\<^verbatim>\<open>sendToPlayer\<close>: no \<^verbatim>\<open>try\<close> either.\<close>

definition sendToPlayer :: "nat \<Rightarrow> json \<Rightarrow> server \<Rightarrow> outcome \<times> server" where
  "sendToPlayer h d s =
     (if readyState (socks s h) = OPEN
      then (case ws_send h d (socks s) of
              None \<Rightarrow> (Threw, s)
            | Some ss \<Rightarrow> (Returned, s\<lparr>socks := ss\<rparr>))
      else (Returned, s))"

definition getPlayerDataForBroadcast :: "player \<Rightarrow> json" where
  "getPlayerDataForBroadcast p = JObj
     [(''id'', JStr (player_id p)),
      (''position'', position p),
      (''rotation'', rotation p),
      (''color'', color p),
      (''isAlienMode'', isAlienMode p),
      (''landedPlanetId'', landedPlanetId p)]"

text \<open>
  The assignment \<^verbatim>\<open>obj[k] = v\<close> to a plain object (one made by \<^verbatim>\<open>{}\<close>), for an object \<open>v\<close>. It
  creates or overwrites the own property \<open>k\<close>, with one exception: \<^verbatim>\<open>__proto__\<close> is an
  accessor property of \<^verbatim>\<open>Object.prototype\<close> (ECMAScript, \<^verbatim>\<open>set Object.prototype.__proto__\<close>),
  so for that key the assignment runs the setter, which replaces the prototype of \<^verbatim>\<open>obj\<close>
  and leaves its own properties as they are. \<^verbatim>\<open>JSON.stringify\<close> writes own properties only.
\<close>

definition obj_assign :: "string \<Rightarrow> json \<Rightarrow> (string \<times> json) list \<Rightarrow> (string \<times> json) list" where
  "obj_assign k v kvs = (if k = ''__proto__'' then kvs else AList.update k v kvs)"

text \<open>\<^verbatim>\<open>players.forEach((player, id) => { playersData[id] = f(player) })\<close>, the loop of
  \<^verbatim>\<open>getPlayersData\<close> and of the snapshot in \<^verbatim>\<open>syncGameState\<close>.\<close>

fun forEach_assign ::
  "(player \<Rightarrow> json) \<Rightarrow> (string \<times> player) list \<Rightarrow> (string \<times> json) list \<Rightarrow> (string \<times> json) list" where
  "forEach_assign f [] playersData = playersData"
| "forEach_assign f ((k, p) # kps) playersData =
     forEach_assign f kps (obj_assign k (f p) playersData)"

definition getPlayersData :: "server \<Rightarrow> json" where
  "getPlayersData s = JObj (forEach_assign getPlayerDataForBroadcast (players s) [])"

section \<open>Connection, close and error handlers\<close>

text \<open>
  \<^verbatim>\<open>wss.on('connection')\<close>. The query parameters \<^verbatim>\<open>username\<close> and \<^verbatim>\<open>color\<close> arrive as
  \<^verbatim>\<open>urlParams.get\<close> returns them: \<open>None\<close> for an absent parameter, \<open>Some\<close> of its value
  (which may be empty) otherwise. \<open>generated\<close> is what \<^verbatim>\<open>generateId()\<close> returns if it is
  called, \<open>now\<close> what \<^verbatim>\<open>Date.now()\<close> returns. The per-connection ping timer is left out.
\<close>

definition palette :: "nat \<Rightarrow> json" where
  "palette i = (if i < length playerColors then JStr (playerColors ! i) else JUndefined)"

definition choose_id :: "string option \<Rightarrow> string \<Rightarrow> string" where
  "choose_id username generated =
     (case username of
        Some u \<Rightarrow> if u \<noteq> [] then u else generated
      | None \<Rightarrow> generated)"

definition choose_color :: "string option \<Rightarrow> nat \<Rightarrow> json \<times> nat" where
  "choose_color color_param idx =
     (case color_param of
        Some c \<Rightarrow> if c \<noteq> [] then (JStr c, idx)
                  else (palette idx, (idx + 1) mod length playerColors)
      | None \<Rightarrow> (palette idx, (idx + 1) mod length playerColors))"

definition new_player :: "string \<Rightarrow> json \<Rightarrow> int \<Rightarrow> nat \<Rightarrow> player" where
  "new_player playerId playerColor now ws =
     \<lparr>player_id = playerId, position = vec3 0 100 0, rotation = vec3 0 0 0,
      color = playerColor, isAlienMode = JBool False, landedPlanetId = JUndefined,
      lastUpdate = now, socket = ws, pingTime = 0\<rparr>"

definition init_frame :: "string \<Rightarrow> json \<Rightarrow> server \<Rightarrow> json" where
  "init_frame playerId playerColor s = JObj
     [(''type'', JStr ''init''), (''playerId'', JStr playerId), (''playerColor'', playerColor),
      (''players'', getPlayersData s), (''planets'', planets)]"

definition playerJoined_frame :: "player \<Rightarrow> json" where
  "playerJoined_frame p = JObj
     [(''type'', JStr ''playerJoined''), (''player'', getPlayerDataForBroadcast p)]"

definition on_connect ::
  "nat \<Rightarrow> string option \<Rightarrow> string option \<Rightarrow> string \<Rightarrow> int \<Rightarrow> server \<Rightarrow> outcome \<times> server" where
  "on_connect ws username color_param generated now s =
     (let playerId = choose_id username generated;
          (playerColor, idx) = choose_color color_param (nextColorIndex s);
          playerData = new_player playerId playerColor now ws;
          s1 = s\<lparr>players := AList.update playerId playerData (players s),
                 nextColorIndex := idx\<rparr>
      in case sendToPlayer ws (init_frame playerId playerColor s1) s1 of
           (Threw, s2) \<Rightarrow> (Threw, s2)
         | (Returned, s2) \<Rightarrow> broadcastToOthers playerId (playerJoined_frame playerData) s2)"

definition playerLeft_frame :: "string \<Rightarrow> json" where
  "playerLeft_frame playerId = JObj [(''type'', JStr ''playerLeft''), (''playerId'', JStr playerId)]"

text \<open>\<^verbatim>\<open>ws.on('close')\<close> of the connection whose id is \<open>playerId\<close>.\<close>

definition on_close :: "string \<Rightarrow> server \<Rightarrow> server" where
  "on_close playerId s =
     (let s1 = broadcastToAll (playerLeft_frame playerId) s
      in s1\<lparr>players := AList.delete playerId (players s1)\<rparr>)"

text \<open>\<^verbatim>\<open>ws.on('error')\<close> of the connection whose id is \<open>playerId\<close>.\<close>

definition on_error :: "string \<Rightarrow> server \<Rightarrow> server" where
  "on_error playerId s = s\<lparr>players := AList.delete playerId (players s)\<rparr>"

section \<open>The periodic tick\<close>

text \<open>
  The first loop of \<^verbatim>\<open>syncGameState\<close>. \<^verbatim>\<open>Map.forEach\<close> visits the entries in insertion
  order; the body deletes at most the entry it is visiting, so the entries still to visit
  are those of the list the loop started with.
\<close>

fun sweep_loop :: "(string \<times> player) list \<Rightarrow> int \<Rightarrow> server \<Rightarrow> server" where
  "sweep_loop [] now s = s"
| "sweep_loop ((k, p) # todo) now s =
     sweep_loop todo now
       (if now - lastUpdate p > timeout
        then broadcastToAll (playerLeft_frame k) (s\<lparr>players := AList.delete k (players s)\<rparr>)
        else s)"

definition sweepTimeouts :: "int \<Rightarrow> server \<Rightarrow> server" where
  "sweepTimeouts now s = sweep_loop (players s) now s"

definition snapshot_entry :: "player \<Rightarrow> json" where
  "snapshot_entry p = JObj
     [(''id'', JStr (player_id p)),
      (''position'', position p),
      (''rotation'', rotation p),
      (''isAlienMode'', isAlienMode p),
      (''landedPlanetId'', landedPlanetId p)]"

definition gameStateData :: "int \<Rightarrow> server \<Rightarrow> json" where
  "gameStateData now s = JObj
     [(''type'', JStr ''gameState''),
      (''players'', JObj (forEach_assign snapshot_entry (players s) [])),
      (''timestamp'', num now)]"

definition refresh :: "int \<Rightarrow> player \<Rightarrow> player" where
  "refresh now p = (if now - lastUpdate p > SYNC_RATE * 2 then p\<lparr>lastUpdate := now\<rparr> else p)"

definition syncGameState :: "int \<Rightarrow> server \<Rightarrow> server" where
  "syncGameState now s =
     (let s1 = sweepTimeouts now s;
          s2 = s1\<lparr>socks := broadcastToAll_loop (map snd (players s1)) (gameStateData now s1) (socks s1)\<rparr>
      in s2\<lparr>players := map (\<lambda>(k, p). (k, refresh now p)) (players s2)\<rparr>)"

text \<open>The timer \<^verbatim>\<open>setInterval(syncGameState, SYNC_RATE)\<close>: \<open>n\<close> ticks after time \<open>t\<close>, with
  no other event in between.\<close>

fun run_ticks :: "int \<Rightarrow> nat \<Rightarrow> server \<Rightarrow> server" where
  "run_ticks t 0 s = s"
| "run_ticks t (Suc n) s = run_ticks (t + SYNC_RATE) n (syncGameState (t + SYNC_RATE) s)"

section \<open>Message handlers\<close>

text \<open>
  \<^verbatim>\<open>ws.on('message')\<close> parses the frame, sets \<^verbatim>\<open>lastUpdate\<close> of the sender's session and
  calls one of the handlers by the frame's \<^verbatim>\<open>type\<close>, all inside one \<^verbatim>\<open>try\<close>. The handlers
  for \<^verbatim>\<open>updatePosition\<close>, \<^verbatim>\<open>placeBomb\<close> and \<^verbatim>\<open>chat\<close> follow; \<open>data\<close> is the parsed frame and
  \<open>playerId\<close> the id of the connection that received it. The dispatcher itself, the other
  handlers, the heartbeat and the ping timers play no part in the statements below and
  are left out.
\<close>

definition isValidPosition :: "json \<Rightarrow> bool" where
  "isValidPosition position' =
     (if \<not> js_truthy position' then False
      else typeof_number (js_get position' ''x'') \<and>
           typeof_number (js_get position' ''y'') \<and>
           typeof_number (js_get position' ''z'') \<and>
           \<not> js_isNaN (js_get position' ''x'') \<and>
           \<not> js_isNaN (js_get position' ''y'') \<and>
           \<not> js_isNaN (js_get position' ''z''))"

definition isValidRotation :: "json \<Rightarrow> bool" where
  "isValidRotation rotation' =
     (if \<not> js_truthy rotation' then False
      else typeof_number (js_get rotation' ''x'') \<and>
           typeof_number (js_get rotation' ''y'') \<and>
           typeof_number (js_get rotation' ''z'') \<and>
           \<not> js_isNaN (js_get rotation' ''x'') \<and>
           \<not> js_isNaN (js_get rotation' ''y'') \<and>
           \<not> js_isNaN (js_get rotation' ''z''))"

text \<open>\<^verbatim>\<open>updatePlayerPosition\<close>; the assignments to the session object found in the Map
  are an update of its entry in place.\<close>

definition updatePlayerPosition :: "string \<Rightarrow> json \<Rightarrow> int \<Rightarrow> server \<Rightarrow> server" where
  "updatePlayerPosition playerId data now s =
     (case map_of (players s) playerId of
        None \<Rightarrow> s
      | Some p \<Rightarrow>
          if \<not> isValidPosition (js_get data ''position'') \<or>
             \<not> isValidRotation (js_get data ''rotation'')
          then s
          else s\<lparr>players := AList.update playerId
                   (p\<lparr>position := js_get data ''position'',
                      rotation := js_get data ''rotation'',
                      lastUpdate := now\<rparr>) (players s)\<rparr>)"

definition bombPlaced_frame :: "string \<Rightarrow> json \<Rightarrow> json" where
  "bombPlaced_frame playerId data = JObj
     [(''type'', JStr ''bombPlaced''),
      (''playerId'', JStr playerId),
      (''planetId'', js_get data ''planetId''),
      (''position'', js_get data ''position''),
      (''countdown'', if js_truthy (js_get data ''countdown'') then js_get data ''countdown''
                      else num 10)]"

definition handleBombPlacement :: "string \<Rightarrow> json \<Rightarrow> server \<Rightarrow> server" where
  "handleBombPlacement playerId data s =
     (if \<not> js_truthy (js_get data ''planetId'') \<or> \<not> isValidPosition (js_get data ''position'')
      then s
      else broadcastToAll (bombPlaced_frame playerId data) s)"

definition sanitize :: "string \<Rightarrow> string" where
  "sanitize message = replace_all CHR ''>'' ''&gt;'' (replace_all CHR ''<'' ''&lt;'' message)"

definition chat_frame :: "string \<Rightarrow> json \<Rightarrow> string \<Rightarrow> json" where
  "chat_frame playerId playerColor sanitizedMessage = JObj
     [(''type'', JStr ''chat''),
      (''playerId'', JStr playerId),
      (''playerColor'', playerColor),
      (''message'', JStr sanitizedMessage)]"

text \<open>
  \<^verbatim>\<open>broadcastChat\<close>. A message that is truthy and not a string passes the first line
  unless its \<^verbatim>\<open>length\<close> exceeds 200, and then \<^verbatim>\<open>message.replace\<close> is not a function: the
  call raises a TypeError, which the \<^verbatim>\<open>try\<close> of the message handler catches.
\<close>

definition broadcastChat ::
  "(json \<Rightarrow> jsnum) \<Rightarrow> string \<Rightarrow> json \<Rightarrow> server \<Rightarrow> outcome \<times> server" where
  "broadcastChat tn playerId message s =
     (case map_of (players s) playerId of
        None \<Rightarrow> (Returned, s)
      | Some p \<Rightarrow>
          if \<not> js_truthy message then (Returned, s)
          else if js_gt tn (js_get message ''length'') 200 then (Returned, s)
          else (case message of
                  JStr m \<Rightarrow>
                    (Returned,
                     s\<lparr>socks := broadcastToAll_loop (map snd (players s))
                                   (chat_frame playerId (color p) (sanitize m)) (socks s)\<rparr>)
                | _ \<Rightarrow> (Threw, s)))"

section \<open>Notions used in the statements\<close>

text \<open>
  A handle \<open>accepts\<close> a frame when the server finds it open and \<^verbatim>\<open>send\<close> does not raise on
  it. A session is \<open>stale\<close> at a tick when the sweep's test \<^verbatim>\<open>now - player.lastUpdate > timeout\<close>
  holds for it. \<open>uses_socket h\<close> counts the registry entries whose handle is \<open>h\<close> (one, as long
  as no two sessions share a handle).
\<close>

definition accepts :: "sockets \<Rightarrow> nat \<Rightarrow> bool" where
  "accepts ss h = (readyState (ss h) = OPEN \<and> \<not> sendThrows (ss h))"

definition stale :: "int \<Rightarrow> player \<Rightarrow> bool" where
  "stale now p = (now - lastUpdate p > timeout)"

definition uses_socket :: "nat \<Rightarrow> (string \<times> player) list \<Rightarrow> nat" where
  "uses_socket h kps = length (filter (\<lambda>p. socket p = h) (map snd kps))"

definition stale_keys :: "int \<Rightarrow> (string \<times> player) list \<Rightarrow> string set" where
  "stale_keys now kps = fst ` {kp \<in> set kps. stale now (snd kp)}"

subsection \<open>Concrete runs\<close>

text \<open>The server at start: an empty registry, the counter at 0, every handle open and
  healthy, nothing delivered yet.\<close>

definition initial :: server where
  "initial = \<lparr>players = [], nextColorIndex = 0,
              socks = (\<lambda>h. \<lparr>readyState = OPEN, sendThrows = False, delivered = [],
                             wire = []\<rparr>)\<rparr>"

text \<open>\<^verbatim>\<open>?username=alice\<close> connects on handle 1 and \<^verbatim>\<open>?username=bob\<close> on handle 2, both at
  time 0.\<close>

definition alice_bob :: server where
  "alice_bob =
     snd (on_connect 2 (Some ''bob'') None ''g2'' 0
       (snd (on_connect 1 (Some ''alice'') None ''g1'' 0 initial)))"

text \<open>The same, but bob connects at time 30000, no tick having run since alice connected.\<close>

definition alice_late_bob :: server where
  "alice_late_bob =
     snd (on_connect 2 (Some ''bob'') None ''g2'' 30000
       (snd (on_connect 1 (Some ''alice'') None ''g1'' 0 initial)))"

text \<open>Two connections ask for the same id: \<^verbatim>\<open>?username=alice\<close> on handle 1 at time 0 and
  again on handle 2 at time 5, while handle 1 is still open.\<close>

definition alice_twice :: server where
  "alice_twice =
     snd (on_connect 2 (Some ''alice'') None ''g2'' 5
       (snd (on_connect 1 (Some ''alice'') None ''g1'' 0 initial)))"

text \<open>alice, bob and carol are connected on handles 1, 2 and 3; then \<^verbatim>\<open>send\<close> starts to
  raise on bob's handle, which still reports \<^verbatim>\<open>OPEN\<close>. \<open>dave\<close> is the session the server
  creates when \<^verbatim>\<open>?username=dave\<close> connects next, on handle 4 at time 10.\<close>

definition three_clients :: server where
  "three_clients =
     snd (on_connect 3 (Some ''carol'') None ''g3'' 0
       (snd (on_connect 2 (Some ''bob'') None ''g2'' 0
         (snd (on_connect 1 (Some ''alice'') None ''g1'' 0 initial)))))"

definition bob_broken :: server where
  "bob_broken =
     three_clients\<lparr>socks := (socks three_clients)(2 := (socks three_clients 2)\<lparr>sendThrows := True\<rparr>)\<rparr>"

definition dave :: player where
  "dave = new_player ''dave'' (JStr ''#FFDC00'') 10 4"

text \<open>\<^verbatim>\<open>?username=__proto__\<close> connects on handle 1 and \<^verbatim>\<open>?username=bob\<close> on handle 2, both at
  time 0.\<close>

definition proto_bob :: server where
  "proto_bob =
     snd (on_connect 2 (Some ''bob'') None ''g2'' 0
       (snd (on_connect 1 (Some ''__proto__'') None ''g1'' 0 initial)))"

subsection \<open>Notions for the message handlers\<close>

text \<open>
  What the validators accept, said without the code: a vector is \<open>numeric\<close> when it is an
  object whose \<open>x\<close>, \<open>y\<close> and \<open>z\<close> are numbers other than NaN, and \<open>finite\<close> when they are
  finite numbers, as the specification words it.
\<close>

fun non_nan_number :: "json \<Rightarrow> bool" where
  "non_nan_number (JNum n) = (n \<noteq> NaN)"
| "non_nan_number v = False"

fun finite_number :: "json \<Rightarrow> bool" where
  "finite_number (JNum (Fin q)) = True"
| "finite_number v = False"

fun numeric_vector :: "json \<Rightarrow> bool" where
  "numeric_vector (JObj kvs) =
     list_all (\<lambda>k. case map_of kvs k of Some w \<Rightarrow> non_nan_number w | None \<Rightarrow> False)
       [''x'', ''y'', ''z'']"
| "numeric_vector v = False"

fun finite_vector :: "json \<Rightarrow> bool" where
  "finite_vector (JObj kvs) =
     list_all (\<lambda>k. case map_of kvs k of Some w \<Rightarrow> finite_number w | None \<Rightarrow> False)
       [''x'', ''y'', ''z'']"
| "finite_vector v = False"

text \<open>Three \<^verbatim>\<open>updatePosition\<close> payloads: one with \<^verbatim>\<open>position.x\<close> infinite (the wire text
  \<^verbatim>\<open>1e999\<close>), a regular one, and one with \<^verbatim>\<open>position.y\<close> NaN.\<close>

definition infinite_update :: json where
  "infinite_update = JObj
     [(''type'', JStr ''updatePosition''),
      (''position'', JObj [(''x'', JNum PosInf), (''y'', num 0), (''z'', num 0)]),
      (''rotation'', vec3 0 0 0)]"

definition good_update :: json where
  "good_update = JObj
     [(''type'', JStr ''updatePosition''),
      (''position'', vec3 1 2 3),
      (''rotation'', vec3 0 0 0)]"

definition nan_update :: json where
  "nan_update = JObj
     [(''type'', JStr ''updatePosition''),
      (''position'', JObj [(''x'', num 1), (''y'', JNum NaN), (''z'', num 3)]),
      (''rotation'', vec3 0 0 0)]"

text \<open>Three \<^verbatim>\<open>placeBomb\<close> payloads: without a countdown, with the countdown 0, and with
  \<^verbatim>\<open>Infinity\<close> (which \<^verbatim>\<open>JSON.parse\<close> reads from \<^verbatim>\<open>1e999\<close>) as \<open>x\<close> of the position and as countdown.\<close>

definition bomb_no_countdown :: json where
  "bomb_no_countdown = JObj
     [(''type'', JStr ''placeBomb''), (''planetId'', JStr ''p1''), (''position'', vec3 0 0 0)]"

definition bomb_zero_countdown :: json where
  "bomb_zero_countdown = JObj
     [(''type'', JStr ''placeBomb''), (''planetId'', JStr ''p1''), (''position'', vec3 0 0 0),
      (''countdown'', num 0)]"

definition bomb_infinite :: json where
  "bomb_infinite = JObj
     [(''type'', JStr ''placeBomb''), (''planetId'', JStr ''p1''),
      (''position'', JObj [(''x'', JNum PosInf), (''y'', num 0), (''z'', num 0)]),
      (''countdown'', JNum PosInf)]"

text \<open>
  The escaping of a chat message said in one pass, character by character; and
  \<^verbatim>\<open>String.prototype.trim\<close> on ASCII white space, which the specification mentions and the
  server never calls. \<open>no_coercion\<close> stands for the runtime's conversion where it is not
  needed (the message is a string).
\<close>

definition escape_char :: "char \<Rightarrow> string" where
  "escape_char c = (if c = CHR ''<'' then ''&lt;'' else if c = CHR ''>'' then ''&gt;'' else [c])"

definition escape :: "string \<Rightarrow> string" where
  "escape m = concat (map escape_char m)"

definition is_space :: "char \<Rightarrow> bool" where
  "is_space c = (c = CHR '' '' \<or> c = CHR 0x09 \<or> c = CHR 0x0A \<or> c = CHR 0x0B \<or>
                 c = CHR 0x0C \<or> c = CHR 0x0D)"

definition js_trim :: "string \<Rightarrow> string" where
  "js_trim m = rev (dropWhile is_space (rev (dropWhile is_space m)))"

definition no_coercion :: "json \<Rightarrow> jsnum" where
  "no_coercion v = NaN"

text \<open>
  The frame a tick at time \<open>now\<close> broadcasts from state \<open>s\<close>, the sessions that are live at
  that tick (those the sweep keeps), and the own properties of an object.
\<close>

fun own_properties :: "json \<Rightarrow> (string \<times> json) list" where
  "own_properties (JObj kvs) = kvs"
| "own_properties v = []"

definition tick_frame :: "int \<Rightarrow> server \<Rightarrow> json" where
  "tick_frame now s = gameStateData now (sweepTimeouts now s)"

definition live :: "int \<Rightarrow> server \<Rightarrow> (string \<times> player) list" where
  "live now s = filter (\<lambda>(k, p). \<not> stale now p) (players s)"

section \<open>Lemmas about fan-out, sweep and tick\<close>

lemma broadcastToAll_loop_env:
  "readyState (broadcastToAll_loop ps d ss h) = readyState (ss h) \<and>
   sendThrows (broadcastToAll_loop ps d ss h) = sendThrows (ss h)"
  by (induction ps arbitrary: ss) (auto simp: ws_send_def)

lemma accepts_broadcastToAll_loop [simp]:
  "accepts (broadcastToAll_loop ps d ss) h = accepts ss h"
  by (simp add: accepts_def broadcastToAll_loop_env)

lemma broadcastToAll_loop_delivered:
  "delivered (broadcastToAll_loop ps d ss h) =
     delivered (ss h) @
       (if accepts ss h then replicate (length (filter (\<lambda>p. socket p = h) ps)) d else [])"
proof (induction ps arbitrary: ss)
  case Nil
  show ?case by simp
next
  case (Cons p ps)
  let ?ss1 = "if readyState (ss (socket p)) = OPEN
        then (case ws_send (socket p) d ss of Some ss' \<Rightarrow> ss' | None \<Rightarrow> ss)
        else ss"
  have acc: "accepts ?ss1 h = accepts ss h"
    by (auto simp: accepts_def ws_send_def)
  have one: "delivered (?ss1 h) =
      delivered (ss h) @ (if accepts ss h \<and> socket p = h then [d] else [])"
    by (auto simp: accepts_def ws_send_def)
  have "delivered (broadcastToAll_loop (p # ps) d ss h) =
        delivered (broadcastToAll_loop ps d ?ss1 h)"
    by simp
  also have "\<dots> = delivered (?ss1 h) @
       (if accepts ?ss1 h then replicate (length (filter (\<lambda>p. socket p = h) ps)) d else [])"
    by (rule Cons.IH)
  also have "\<dots> = delivered (ss h) @
       (if accepts ss h then replicate (length (filter (\<lambda>p. socket p = h) (p # ps))) d else [])"
    unfolding acc one by (simp add: replicate_append_same)
  finally show ?case .
qed

lemma broadcastToAll_delivered:
  "delivered (socks (broadcastToAll d s) h) =
     delivered (socks s h) @
       (if accepts (socks s) h then replicate (uses_socket h (players s)) d else [])"
  by (simp add: broadcastToAll_def broadcastToAll_loop_delivered uses_socket_def)

lemma broadcastToAll_frame [simp]:
  "players (broadcastToAll d s) = players s"
  "nextColorIndex (broadcastToAll d s) = nextColorIndex s"
  "accepts (socks (broadcastToAll d s)) h = accepts (socks s) h"
  by (simp_all add: broadcastToAll_def)

lemma uses_socket_pos:
  assumes "(k, p) \<in> set kps"
  shows "0 < uses_socket (socket p) kps"
proof -
  from assms have "p \<in> set (filter (\<lambda>q. socket q = socket p) (map snd kps))"
    by force
  then show ?thesis
    unfolding uses_socket_def by (rule length_pos_if_in_set)
qed

lemma broadcastToAll_reaches:
  assumes "(k, p) \<in> set (players s)" and "accepts (socks s) (socket p)"
  shows "d \<in> set (delivered (socks (broadcastToAll d s) (socket p)))"
  using uses_socket_pos [OF assms(1)] assms(2)
  by (simp add: broadcastToAll_delivered)

subsection \<open>The sweep\<close>

lemma stale_keys_Cons:
  "stale_keys now ((k, p) # kps) =
     (if stale now p then insert k (stale_keys now kps) else stale_keys now kps)"
  by (force simp: stale_keys_def)

lemma players_sweep_loop:
  "players (sweep_loop todo now s) =
     filter (\<lambda>(k, p). k \<notin> stale_keys now todo) (players s)"
proof (induction todo arbitrary: s)
  case Nil
  show ?case by (simp add: stale_keys_def)
next
  case (Cons kp todo)
  obtain k p where kp: "kp = (k, p)" by (cases kp)
  show ?case
    unfolding kp
    by (auto simp: Cons.IH stale_keys_Cons stale_def AList.delete_eq intro!: filter_cong)
qed

lemma players_sweepTimeouts:
  assumes "distinct (map fst (players s))"
  shows "players (sweepTimeouts now s) = filter (\<lambda>(k, p). \<not> stale now p) (players s)"
proof -
  have "(k \<notin> stale_keys now (players s)) = (\<not> stale now p)"
    if "(k, p) \<in> set (players s)" for k p
  proof
    assume "k \<notin> stale_keys now (players s)"
    with that show "\<not> stale now p" by (force simp: stale_keys_def)
  next
    assume fresh: "\<not> stale now p"
    show "k \<notin> stale_keys now (players s)"
    proof
      assume "k \<in> stale_keys now (players s)"
      then obtain q where q: "(k, q) \<in> set (players s)" "stale now q"
        by (auto simp: stale_keys_def)
      from assms that q(1) have "q = p"
        by (meson eq_key_imp_eq_value)
      with q(2) fresh show False by simp
    qed
  qed
  then show ?thesis
    unfolding sweepTimeouts_def players_sweep_loop
    by (intro filter_cong) auto
qed

lemma sweep_loop_frame [simp]:
  "nextColorIndex (sweep_loop todo now s) = nextColorIndex s"
  "accepts (socks (sweep_loop todo now s)) h = accepts (socks s) h"
  by (induction todo arbitrary: s) (auto split: if_splits)

text \<open>What a sweep delivers: only playerLeft frames of the sessions it evicts.\<close>

lemma sweep_loop_delivered:
  "\<exists>fs. delivered (socks (sweep_loop todo now s) h) = delivered (socks s h) @ fs \<and>
        set fs \<subseteq> playerLeft_frame ` stale_keys now todo"
proof (induction todo arbitrary: s)
  case Nil
  show ?case by simp
next
  case (Cons kp todo)
  obtain k p where kp: "kp = (k, p)" by (cases kp)
  show ?case
  proof (cases "stale now p")
    case False
    with Cons.IH [of s] show ?thesis
      by (simp add: kp stale_keys_Cons stale_def)
  next
    case True
    let ?s1 = "broadcastToAll (playerLeft_frame k) (s\<lparr>players := AList.delete k (players s)\<rparr>)"
    from Cons.IH [of ?s1] obtain fs where
      fs: "delivered (socks (sweep_loop todo now ?s1) h) = delivered (socks ?s1 h) @ fs"
          "set fs \<subseteq> playerLeft_frame ` stale_keys now todo"
      by blast
    obtain gs where gs: "delivered (socks ?s1 h) = delivered (socks s h) @ gs"
        "set gs \<subseteq> {playerLeft_frame k}"
      by (auto simp: broadcastToAll_delivered)
    have "delivered (socks (sweep_loop (kp # todo) now s) h) = delivered (socks s h) @ (gs @ fs)"
      using True fs(1) gs(1) by (simp add: kp stale_def)
    moreover have "set (gs @ fs) \<subseteq> playerLeft_frame ` stale_keys now (kp # todo)"
      using True fs(2) gs(2) by (auto simp: kp stale_keys_Cons)
    ultimately show ?thesis by blast
  qed
qed

lemma sweep_loop_players_subset:
  "set (players (sweep_loop todo now s)) \<subseteq> set (players s)"
  by (auto simp: players_sweep_loop)

lemma sweep_loop_notifies:
  assumes "(k, p) \<in> set todo" and "stale now p"
    and "(k', p') \<in> set (players (sweep_loop todo now s))"
    and "accepts (socks s) (socket p')"
  shows "playerLeft_frame k \<in> set (delivered (socks (sweep_loop todo now s) (socket p')))"
  using assms
proof (induction todo arbitrary: s)
  case Nil
  then show ?case by simp
next
  case (Cons kp todo)
  obtain k0 p0 where kp: "kp = (k0, p0)" by (cases kp)
  let ?s1 = "if now - lastUpdate p0 > timeout
        then broadcastToAll (playerLeft_frame k0) (s\<lparr>players := AList.delete k0 (players s)\<rparr>)
        else s"
  have step: "sweep_loop (kp # todo) now s = sweep_loop todo now ?s1"
    by (simp add: kp)
  have acc: "accepts (socks ?s1) (socket p') = accepts (socks s) (socket p')"
    by simp
  from Cons.prems(3) have surv: "(k', p') \<in> set (players (sweep_loop todo now ?s1))"
    by (simp add: kp)
  show ?case
  proof (cases "(k, p) = (k0, p0)")
    case True
    with Cons.prems(2) have st: "now - lastUpdate p0 > timeout" by (simp add: stale_def)
    from surv sweep_loop_players_subset have "(k', p') \<in> set (players ?s1)" by blast
    with st have mem: "(k', p') \<in> set (players (s\<lparr>players := AList.delete k0 (players s)\<rparr>))"
      by simp
    have "playerLeft_frame k0 \<in> set (delivered (socks ?s1 (socket p')))"
      using broadcastToAll_reaches [OF mem, of "playerLeft_frame k0"] Cons.prems(4) st
      by simp
    moreover obtain fs where
      "delivered (socks (sweep_loop todo now ?s1) (socket p')) = delivered (socks ?s1 (socket p')) @ fs"
      using sweep_loop_delivered by blast
    ultimately show ?thesis
      using True unfolding step by simp
  next
    case False
    with Cons.prems(1) have "(k, p) \<in> set todo" by (auto simp: kp)
    from Cons.IH [OF this Cons.prems(2) surv] Cons.prems(4) acc
    show ?thesis unfolding step by simp
  qed
qed

subsection \<open>One tick, and many\<close>

lemma players_syncGameState:
  assumes "distinct (map fst (players s))"
  shows "players (syncGameState now s) =
     map (\<lambda>(k, p). (k, refresh now p)) (filter (\<lambda>(k, p). \<not> stale now p) (players s))"
  by (simp add: syncGameState_def Let_def players_sweepTimeouts [OF assms])

lemma keys_syncGameState:
  assumes "distinct (map fst (players s))"
  shows "map fst (players (syncGameState now s)) =
     map fst (filter (\<lambda>(k, p). \<not> stale now p) (players s))"
  by (simp add: players_syncGameState [OF assms] case_prod_unfold comp_def)

lemma distinct_syncGameState:
  assumes "distinct (map fst (players s))"
  shows "distinct (map fst (players (syncGameState now s)))"
  unfolding keys_syncGameState [OF assms] using assms by (rule distinct_map_filter)

lemma map_of_syncGameState:
  assumes "distinct (map fst (players s))" and "map_of (players s) k = Some p"
  shows "map_of (players (syncGameState now s)) k =
     (if stale now p then None else Some (refresh now p))"
proof (cases "stale now p")
  case False
  with assms(2) have "map_of (filter (\<lambda>(k, p). \<not> stale now p) (players s)) k = Some p"
    by (intro map_of_filter_in) auto
  with False show ?thesis
    by (simp add: players_syncGameState [OF assms(1)] map_of_map)
next
  case True
  have "k \<notin> fst ` set (filter (\<lambda>(k, p). \<not> stale now p) (players s))"
  proof
    assume "k \<in> fst ` set (filter (\<lambda>(k, p). \<not> stale now p) (players s))"
    then obtain q where q: "(k, q) \<in> set (players s)" "\<not> stale now q" by auto
    from assms(1) q(1) have "map_of (players s) k = Some q" by simp
    with assms(2) True q(2) show False by simp
  qed
  then have "map_of (filter (\<lambda>(k, p). \<not> stale now p) (players s)) k = None"
    by (simp add: map_of_eq_None_iff)
  with True show ?thesis
    by (simp add: players_syncGameState [OF assms(1)] map_of_map)
qed

lemma syncGameState_frame [simp]:
  "nextColorIndex (syncGameState now s) = nextColorIndex s"
  "accepts (socks (syncGameState now s)) h = accepts (socks s) h"
  by (simp_all add: syncGameState_def Let_def sweepTimeouts_def)

lemma syncGameState_delivered:
  "\<exists>fs. delivered (socks (syncGameState now s) h) =
          delivered (socks s h) @ fs @
            (if accepts (socks s) h
             then replicate (uses_socket h (players (sweepTimeouts now s)))
                    (gameStateData now (sweepTimeouts now s))
             else []) \<and>
        set fs \<subseteq> playerLeft_frame ` stale_keys now (players s)"
proof -
  obtain fs where fs:
    "delivered (socks (sweepTimeouts now s) h) = delivered (socks s h) @ fs"
    "set fs \<subseteq> playerLeft_frame ` stale_keys now (players s)"
    unfolding sweepTimeouts_def using sweep_loop_delivered by blast
  have "delivered (socks (syncGameState now s) h) =
      delivered (socks (sweepTimeouts now s) h) @
        (if accepts (socks s) h
         then replicate (uses_socket h (players (sweepTimeouts now s)))
                (gameStateData now (sweepTimeouts now s))
         else [])"
    by (simp add: syncGameState_def Let_def broadcastToAll_loop_delivered uses_socket_def
        sweepTimeouts_def)
  with fs show ?thesis by auto
qed

lemma playerLeft_frame_inj: "playerLeft_frame k = playerLeft_frame k' \<Longrightarrow> k = k'"
  by (simp add: playerLeft_frame_def)

lemma gameStateData_not_playerLeft: "gameStateData now s \<noteq> playerLeft_frame k"
  by (simp add: gameStateData_def playerLeft_frame_def)

lemma fresh_not_stale_key:
  assumes "distinct (map fst (players s))" and "map_of (players s) k = Some p"
    and "\<not> stale now p"
  shows "k \<notin> stale_keys now (players s)"
proof
  assume "k \<in> stale_keys now (players s)"
  then obtain q where q: "(k, q) \<in> set (players s)" "stale now q"
    by (auto simp: stale_keys_def)
  from assms(1) q(1) have "map_of (players s) k = Some q" by simp
  with assms(2,3) q(2) show False by simp
qed

lemma tick_no_playerLeft:
  assumes "distinct (map fst (players s))" and "map_of (players s) k = Some p"
    and "\<not> stale now p"
  shows "\<exists>fs. delivered (socks (syncGameState now s) h) = delivered (socks s h) @ fs \<and>
              playerLeft_frame k \<notin> set fs"
proof -
  obtain fs where fs:
    "delivered (socks (syncGameState now s) h) =
          delivered (socks s h) @ fs @
            (if accepts (socks s) h
             then replicate (uses_socket h (players (sweepTimeouts now s)))
                    (gameStateData now (sweepTimeouts now s))
             else [])"
    "set fs \<subseteq> playerLeft_frame ` stale_keys now (players s)"
    using syncGameState_delivered by blast
  let ?gs = "fs @ (if accepts (socks s) h
             then replicate (uses_socket h (players (sweepTimeouts now s)))
                    (gameStateData now (sweepTimeouts now s))
             else [])"
  have "playerLeft_frame k \<notin> set fs"
    using fs(2) fresh_not_stale_key [OF assms] playerLeft_frame_inj by blast
  then have "playerLeft_frame k \<notin> set ?gs"
    using gameStateData_not_playerLeft [of now "sweepTimeouts now s" k] by auto
  with fs(1) show ?thesis by auto
qed

lemma refresh_age:
  "socket (refresh now p) = socket p \<and> now - lastUpdate (refresh now p) \<le> 2 * SYNC_RATE"
  by (simp add: refresh_def SYNC_RATE_def)

lemma run_ticks_keeps:
  assumes "distinct (map fst (players s))" and "map_of (players s) k = Some p"
    and "t - lastUpdate p \<le> 2 * SYNC_RATE"
  shows "(\<exists>p'. map_of (players (run_ticks t n s)) k = Some p' \<and> socket p' = socket p \<and>
               (t + SYNC_RATE * int n) - lastUpdate p' \<le> 2 * SYNC_RATE) \<and>
         (\<exists>fs. delivered (socks (run_ticks t n s) h) = delivered (socks s h) @ fs \<and>
               playerLeft_frame k \<notin> set fs)"
  using assms
proof (induction n arbitrary: t s p)
  case 0
  then show ?case by simp
next
  case (Suc n)
  let ?now = "t + SYNC_RATE"
  let ?s1 = "syncGameState ?now s"
  from Suc.prems(3) have fresh: "\<not> stale ?now p"
    by (simp add: stale_def timeout_def SYNC_RATE_def)
  have d1: "distinct (map fst (players ?s1))"
    using Suc.prems(1) by (rule distinct_syncGameState)
  have m1: "map_of (players ?s1) k = Some (refresh ?now p)"
    using map_of_syncGameState [OF Suc.prems(1,2), of ?now] fresh by simp
  have a1: "?now - lastUpdate (refresh ?now p) \<le> 2 * SYNC_RATE"
    using refresh_age by blast
  from Suc.IH [OF d1 m1 a1] obtain p' fs where
    p': "map_of (players (run_ticks ?now n ?s1)) k = Some p'"
        "socket p' = socket (refresh ?now p)"
        "(?now + SYNC_RATE * int n) - lastUpdate p' \<le> 2 * SYNC_RATE"
    and fs: "delivered (socks (run_ticks ?now n ?s1) h) = delivered (socks ?s1 h) @ fs"
        "playerLeft_frame k \<notin> set fs"
    by blast
  obtain gs where gs: "delivered (socks ?s1 h) = delivered (socks s h) @ gs"
      "playerLeft_frame k \<notin> set gs"
    using tick_no_playerLeft [OF Suc.prems(1,2) fresh] by blast
  have "map_of (players (run_ticks t (Suc n) s)) k = Some p' \<and> socket p' = socket p \<and>
        (t + SYNC_RATE * int (Suc n)) - lastUpdate p' \<le> 2 * SYNC_RATE"
    using p' refresh_age [of ?now p] by (simp add: algebra_simps)
  moreover have "delivered (socks (run_ticks t (Suc n) s) h) = delivered (socks s h) @ (gs @ fs) \<and>
        playerLeft_frame k \<notin> set (gs @ fs)"
    using fs gs by simp
  ultimately show ?case by blast
qed

lemma tick_evicts:
  assumes "distinct (map fst (players s))" and "map_of (players s) k = Some p"
    and "stale now p"
    and "(k', p') \<in> set (players (syncGameState now s))"
    and "accepts (socks s) (socket p')"
  shows "playerLeft_frame k \<in> set (delivered (socks (syncGameState now s) (socket p')))"
proof -
  from assms(4) obtain q where q: "(k', q) \<in> set (players (sweepTimeouts now s))"
      "socket q = socket p'"
    by (auto simp: syncGameState_def Let_def refresh_def split: if_splits)
  from assms(2) have mem: "(k, p) \<in> set (players s)" by (rule map_of_SomeD)
  have "(k', q) \<in> set (players (sweep_loop (players s) now s))"
    using q(1) by (simp add: sweepTimeouts_def)
  moreover have "accepts (socks s) (socket q)"
    using q(2) assms(5) by simp
  ultimately
  have "playerLeft_frame k \<in> set (delivered (socks (sweep_loop (players s) now s) (socket q)))"
    by (rule sweep_loop_notifies [OF mem assms(3)])
  then have "playerLeft_frame k \<in> set (delivered (socks (sweepTimeouts now s) (socket q)))"
    by (simp add: sweepTimeouts_def)
  moreover have "\<exists>gs. delivered (socks (syncGameState now s) (socket q)) =
        delivered (socks (sweepTimeouts now s) (socket q)) @ gs"
    by (simp add: syncGameState_def Let_def broadcastToAll_loop_delivered)
  ultimately show ?thesis using q(2) by auto
qed

subsection \<open>The concrete runs, evaluated\<close>

lemmas connect_defs =
  on_connect_def choose_id_def choose_color_def new_player_def init_frame_def
  playerJoined_frame_def sendToPlayer_def broadcastToOthers_def ws_send_def palette_def
  playerColors_def getPlayersData_def getPlayerDataForBroadcast_def initial_def Let_def
  obj_assign_def

lemma alice_bob_players:
  "players alice_bob =
     [(''alice'', new_player ''alice'' (JStr ''#FF4136'') 0 1),
      (''bob'', new_player ''bob'' (JStr ''#0074D9'') 0 2)]"
  by (simp add: alice_bob_def connect_defs del: JSON_stringify.simps)

lemma alice_bob_socks:
  "accepts (socks alice_bob) h"
  "playerLeft_frame ''alice'' \<notin> set (delivered (socks alice_bob 2))"
  by (simp_all add: alice_bob_def connect_defs accepts_def playerLeft_frame_def del: JSON_stringify.simps)

lemma alice_late_bob_players:
  "players alice_late_bob =
     [(''alice'', new_player ''alice'' (JStr ''#FF4136'') 0 1),
      (''bob'', new_player ''bob'' (JStr ''#0074D9'') 30000 2)]"
  by (simp add: alice_late_bob_def connect_defs del: JSON_stringify.simps)

lemma alice_late_bob_socks: "accepts (socks alice_late_bob) h"
  by (simp add: alice_late_bob_def connect_defs accepts_def del: JSON_stringify.simps)

subsection \<open>Connect, close and error\<close>

lemma sendToPlayer_frame [simp]:
  "players (snd (sendToPlayer h d s)) = players s"
  "nextColorIndex (snd (sendToPlayer h d s)) = nextColorIndex s"
  by (simp_all add: sendToPlayer_def split: option.splits)

lemma broadcastToOthers_frame [simp]:
  "players (snd (broadcastToOthers ex d s)) = players s"
  "nextColorIndex (snd (broadcastToOthers ex d s)) = nextColorIndex s"
  by (simp_all add: broadcastToOthers_def split: prod.splits)

lemma on_connect_players:
  "players (snd (on_connect ws username color_param generated now s)) =
     AList.update (choose_id username generated)
       (new_player (choose_id username generated)
          (fst (choose_color color_param (nextColorIndex s))) now ws)
       (players s)"
proof -
  obtain c i where ci: "choose_color color_param (nextColorIndex s) = (c, i)"
    by (cases "choose_color color_param (nextColorIndex s)")
  let ?k = "choose_id username generated"
  let ?s1 = "s\<lparr>players := AList.update ?k (new_player ?k c now ws) (players s), nextColorIndex := i\<rparr>"
  obtain r s2 where r: "sendToPlayer ws (init_frame ?k c ?s1) ?s1 = (r, s2)"
    by (cases "sendToPlayer ws (init_frame ?k c ?s1) ?s1")
  have "players s2 = players ?s1"
    using sendToPlayer_frame(1) [of ws "init_frame ?k c ?s1" ?s1] r by simp
  then show ?thesis
    using ci r by (cases r) (simp_all add: on_connect_def Let_def)
qed

lemma on_connect_counter:
  "nextColorIndex (snd (on_connect ws username color_param generated now s)) =
     snd (choose_color color_param (nextColorIndex s))"
proof -
  obtain c i where ci: "choose_color color_param (nextColorIndex s) = (c, i)"
    by (cases "choose_color color_param (nextColorIndex s)")
  let ?k = "choose_id username generated"
  let ?s1 = "s\<lparr>players := AList.update ?k (new_player ?k c now ws) (players s), nextColorIndex := i\<rparr>"
  obtain r s2 where r: "sendToPlayer ws (init_frame ?k c ?s1) ?s1 = (r, s2)"
    by (cases "sendToPlayer ws (init_frame ?k c ?s1) ?s1")
  have "nextColorIndex s2 = nextColorIndex ?s1"
    using sendToPlayer_frame(2) [of ws "init_frame ?k c ?s1" ?s1] r by simp
  then show ?thesis
    using ci r by (cases r) (simp_all add: on_connect_def Let_def)
qed

lemma distinct_on_connect:
  "distinct (map fst (players s)) \<Longrightarrow>
   distinct (map fst (players (snd (on_connect ws username color_param generated now s))))"
  by (simp add: on_connect_players distinct_update)

lemma on_close_frame [simp]:
  "players (on_close k s) = AList.delete k (players s)"
  "nextColorIndex (on_close k s) = nextColorIndex s"
  by (simp_all add: on_close_def Let_def)

lemma on_close_delivered:
  "delivered (socks (on_close k s) h) =
     delivered (socks s h) @
       (if accepts (socks s) h then replicate (uses_socket h (players s)) (playerLeft_frame k)
        else [])"
  by (simp add: on_close_def Let_def broadcastToAll_delivered)

lemma on_error_frame [simp]:
  "players (on_error k s) = AList.delete k (players s)"
  "nextColorIndex (on_error k s) = nextColorIndex s"
  "socks (on_error k s) = socks s"
  by (simp_all add: on_error_def)

lemma distinct_on_close:
  "distinct (map fst (players s)) \<Longrightarrow> distinct (map fst (players (on_close k s)))"
  by (simp add: distinct_delete)

lemma distinct_on_error:
  "distinct (map fst (players s)) \<Longrightarrow> distinct (map fst (players (on_error k s)))"
  by (simp add: distinct_delete)

lemma on_close_accepts [simp]: "accepts (socks (on_close k s)) h = accepts (socks s) h"
  by (simp add: on_close_def Let_def)

lemma three_clients_players:
  "players three_clients =
     [(''alice'', new_player ''alice'' (JStr ''#FF4136'') 0 1),
      (''bob'', new_player ''bob'' (JStr ''#0074D9'') 0 2),
      (''carol'', new_player ''carol'' (JStr ''#2ECC40'') 0 3)]"
  by (simp add: three_clients_def connect_defs del: JSON_stringify.simps)

lemma three_clients_counter: "nextColorIndex three_clients = 3"
  by (simp add: three_clients_def on_connect_counter choose_color_def initial_def playerColors_def)

lemma broadcastToOthers_loop_env:
  "broadcastToOthers_loop ex kps d ss = (r, ss') \<Longrightarrow>
   readyState (ss' h) = readyState (ss h) \<and> sendThrows (ss' h) = sendThrows (ss h)"
  by (induction ex kps d ss rule: broadcastToOthers_loop.induct)
     (auto simp: ws_send_def split: if_splits)

lemma three_clients_env:
  "readyState (socks three_clients h) = OPEN" "\<not> sendThrows (socks three_clients h)"
  by (simp_all add: three_clients_def connect_defs del: JSON_stringify.simps)

lemma three_clients_carol:
  "playerJoined_frame dave \<notin> set (delivered (socks three_clients 3))"
  by (simp add: three_clients_def connect_defs dave_def del: JSON_stringify.simps)

lemma bob_broken_facts:
  "players bob_broken = players three_clients"
  "nextColorIndex bob_broken = 3"
  "readyState (socks bob_broken h) = OPEN"
  "sendThrows (socks bob_broken h) = (h = 2)"
  "delivered (socks bob_broken 3) = delivered (socks three_clients 3)"
  by (simp_all add: bob_broken_def three_clients_counter three_clients_env)

lemma updatePlayerPosition_counter [simp]:
  "nextColorIndex (updatePlayerPosition k data now s) = nextColorIndex s"
  by (simp add: updatePlayerPosition_def split: option.splits)

lemma handleBombPlacement_counter [simp]:
  "nextColorIndex (handleBombPlacement k data s) = nextColorIndex s"
  by (simp add: handleBombPlacement_def)

lemma broadcastChat_counter [simp]:
  "nextColorIndex (snd (broadcastChat tn k m s)) = nextColorIndex s"
  by (simp add: broadcastChat_def split: option.splits json.splits)

subsection \<open>The registry keeps its keys unique\<close>

text \<open>The statements that assume unique keys apply to every state the handlers can
  produce from the initial one.\<close>

lemma distinct_initial: "distinct (map fst (players initial))"
  by (simp add: initial_def)

lemma distinct_updatePlayerPosition:
  "distinct (map fst (players s)) \<Longrightarrow>
   distinct (map fst (players (updatePlayerPosition k data now s)))"
  by (simp add: updatePlayerPosition_def distinct_update split: option.splits)

lemma players_handleBombPlacement [simp]:
  "players (handleBombPlacement k data s) = players s"
  by (simp add: handleBombPlacement_def)

lemma players_broadcastChat [simp]:
  "players (snd (broadcastChat tn k m s)) = players s"
  by (simp add: broadcastChat_def split: option.splits json.splits)

subsection \<open>Validation, bombs and chat\<close>

lemma typeof_isNaN: "(typeof_number v \<and> \<not> js_isNaN v) = non_nan_number v"
  by (cases v) auto

lemma non_nan_Undefined [simp]: "\<not> non_nan_number JUndefined"
  by simp

lemma isValidPosition_numeric: "isValidPosition v = numeric_vector v"
proof (cases v)
  case (JObj kvs)
  have "isValidPosition v =
      ((typeof_number (js_get v ''x'') \<and> \<not> js_isNaN (js_get v ''x'')) \<and>
       (typeof_number (js_get v ''y'') \<and> \<not> js_isNaN (js_get v ''y'')) \<and>
       (typeof_number (js_get v ''z'') \<and> \<not> js_isNaN (js_get v ''z'')))"
    unfolding isValidPosition_def JObj by auto
  also have "\<dots> = numeric_vector v"
    unfolding typeof_isNaN JObj by (simp split: option.splits)
  finally show ?thesis .
qed (simp_all add: isValidPosition_def)

lemma isValidRotation_numeric: "isValidRotation v = numeric_vector v"
  using isValidPosition_numeric [of v] by (simp add: isValidRotation_def isValidPosition_def)

lemma handleBombPlacement_valid:
  assumes "js_truthy (js_get data ''planetId'')" and "numeric_vector (js_get data ''position'')"
  shows "handleBombPlacement playerId data s = broadcastToAll (bombPlaced_frame playerId data) s"
  using assms by (simp add: handleBombPlacement_def isValidPosition_numeric)

lemma handleBombPlacement_invalid:
  assumes "\<not> js_truthy (js_get data ''planetId'') \<or> \<not> numeric_vector (js_get data ''position'')"
  shows "handleBombPlacement playerId data s = s"
  using assms by (auto simp: handleBombPlacement_def isValidPosition_numeric)

lemma replace_all_append:
  "replace_all c r (xs @ ys) = replace_all c r xs @ replace_all c r ys"
  by (induction xs) auto

lemma sanitize_escape: "sanitize m = escape m"
proof (induction m)
  case Nil
  show ?case by (simp add: sanitize_def escape_def)
next
  case (Cons x m)
  have "sanitize (x # m) = replace_all CHR ''>'' ''&gt;'' (replace_all CHR ''<'' ''&lt;'' [x]) @ sanitize m"
    by (simp add: sanitize_def replace_all_append)
  also have "replace_all CHR ''>'' ''&gt;'' (replace_all CHR ''<'' ''&lt;'' [x]) = escape_char x"
    by (simp add: escape_char_def)
  finally show ?case
    by (simp add: Cons.IH escape_def)
qed

lemma escape_no_brackets: "CHR ''<'' \<notin> set (escape m) \<and> CHR ''>'' \<notin> set (escape m)"
  by (induction m) (auto simp: escape_def escape_char_def)

lemma length_gt_200:
  "js_gt tn (JNum (Fin (of_nat n))) 200 = (200 < n)"
proof -
  have "((200::rat) < of_nat n) = (of_nat 200 < (of_nat n :: rat))" by simp
  also have "\<dots> = (200 < n)" by (simp only: of_nat_less_iff)
  finally show ?thesis by (simp add: js_gt_def)
qed

lemma broadcastToAll_loop_uses:
  "delivered (broadcastToAll_loop (map snd kps) d ss h) =
     delivered (ss h) @ (if accepts ss h then replicate (uses_socket h kps) d else [])"
  unfolding uses_socket_def by (rule broadcastToAll_loop_delivered)

lemma broadcastChat_relays:
  assumes "map_of (players s) playerId = Some p" and "m \<noteq> []" and "length m \<le> 200"
  shows "broadcastChat tn playerId (JStr m) s =
     (Returned,
      s\<lparr>socks := broadcastToAll_loop (map snd (players s))
                    (chat_frame playerId (color p) (escape m)) (socks s)\<rparr>)"
  using assms by (simp add: broadcastChat_def length_gt_200 sanitize_escape)

lemma broadcastChat_drops:
  assumes "map_of (players s) playerId = None \<or>
           (case message of JStr m \<Rightarrow> m = [] \<or> 200 < length m | _ \<Rightarrow> True)"
  shows "snd (broadcastChat tn playerId message s) = s"
  using assms
  by (cases message) (auto simp: broadcastChat_def length_gt_200 split: option.splits)

subsection \<open>The snapshot of a tick\<close>

lemma players_sweepTimeouts_live:
  "distinct (map fst (players s)) \<Longrightarrow> players (sweepTimeouts now s) = live now s"
  by (simp add: players_sweepTimeouts live_def)

lemma distinct_live:
  "distinct (map fst (players s)) \<Longrightarrow> distinct (map fst (live now s))"
  unfolding live_def by (rule distinct_map_filter)

lemma forEach_assign_distinct:
  assumes "distinct (map fst kps)" and "fst ` set kps \<inter> fst ` set acc = {}"
  shows "forEach_assign f kps acc =
     acc @ map (\<lambda>(k, p). (k, f p)) (filter (\<lambda>(k, p). k \<noteq> ''__proto__'') kps)"
  using assms
proof (induction kps arbitrary: acc)
  case Nil
  show ?case by simp
next
  case (Cons kp kps)
  obtain k p where kp: "kp = (k, p)" by (cases kp)
  from Cons.prems have fresh: "k \<notin> fst ` set acc" and d: "distinct (map fst kps)"
    and k: "k \<notin> fst ` set kps" and disj: "fst ` set kps \<inter> fst ` set acc = {}"
    by (auto simp: kp)
  have upd: "AList.update k (f p) acc = acc @ [(k, f p)]"
    using fresh by (induction acc) auto
  have "fst ` set kps \<inter> fst ` set (obj_assign k (f p) acc) = {}"
    using k disj by (auto simp: obj_assign_def upd)
  from Cons.IH [OF d this] show ?case
    by (simp add: kp obj_assign_def upd)
qed

lemma tick_frame_players:
  assumes "distinct (map fst (players s))"
  shows "js_get (tick_frame now s) ''players'' =
     JObj (map (\<lambda>(k, p). (k, snapshot_entry p))
            (filter (\<lambda>(k, p). k \<noteq> ''__proto__'') (live now s)))"
  using forEach_assign_distinct [OF distinct_live [OF assms], of now "[]" snapshot_entry]
  by (simp add: tick_frame_def gameStateData_def players_sweepTimeouts_live [OF assms])

lemma tick_frame_entry:
  assumes "distinct (map fst (players s))" and "(k, p) \<in> set (live now s)"
    and "k \<noteq> ''__proto__''"
  shows "js_get (js_get (tick_frame now s) ''players'') k = snapshot_entry p"
proof -
  from distinct_live [OF assms(1)] assms(2) have "map_of (live now s) k = Some p"
    by simp
  with assms(3)
  have "map_of (filter (\<lambda>(k, p). k \<noteq> ''__proto__'') (live now s)) k = Some p"
    by (intro map_of_filter_in) auto
  then show ?thesis
    by (simp add: tick_frame_players [OF assms(1)] map_of_map)
qed

lemma tick_frame_no_proto:
  assumes "distinct (map fst (players s))"
  shows "js_get (js_get (tick_frame now s) ''players'') ''__proto__'' = JUndefined"
proof -
  have "map_of (filter (\<lambda>(k, p). k \<noteq> ''__proto__'') (live now s)) ''__proto__'' = None"
    by (auto simp: map_of_eq_None_iff)
  then show ?thesis
    by (simp add: tick_frame_players [OF assms] map_of_map)
qed

lemma tick_last_frame:
  assumes "distinct (map fst (players s))" and "(k, p) \<in> set (live now s)"
    and "accepts (socks s) (socket p)"
  shows "last (delivered (socks (syncGameState now s) (socket p))) = tick_frame now s"
proof -
  from assms(2) have "0 < uses_socket (socket p) (players (sweepTimeouts now s))"
    unfolding players_sweepTimeouts_live [OF assms(1)] by (rule uses_socket_pos)
  moreover obtain fs where
    "delivered (socks (syncGameState now s) (socket p)) =
          delivered (socks s (socket p)) @ fs @
            (if accepts (socks s) (socket p)
             then replicate (uses_socket (socket p) (players (sweepTimeouts now s)))
                    (gameStateData now (sweepTimeouts now s))
             else [])"
    using syncGameState_delivered by blast
  ultimately show ?thesis
    using assms(3) by (simp add: tick_frame_def)
qed

lemma connected_is_live:
  assumes "now - t \<le> timeout"
  shows "(choose_id u g, new_player (choose_id u g) (fst (choose_color c (nextColorIndex s))) t ws)
           \<in> set (live now (snd (on_connect ws u c g t s)))"
proof -
  let ?np = "new_player (choose_id u g) (fst (choose_color c (nextColorIndex s))) t ws"
  have "map_of (players (snd (on_connect ws u c g t s))) (choose_id u g) = Some ?np"
    by (simp add: on_connect_players update_conv')
  then have "(choose_id u g, ?np) \<in> set (players (snd (on_connect ws u c g t s)))"
    by (rule map_of_SomeD)
  moreover from assms have "\<not> stale now ?np"
    by (simp add: stale_def new_player_def)
  ultimately show ?thesis by (simp add: live_def)
qed

lemma live_alice_bob:
  "live 100 alice_bob =
     [(''alice'', new_player ''alice'' (JStr ''#FF4136'') 0 1),
      (''bob'', new_player ''bob'' (JStr ''#0074D9'') 0 2)]"
  by (simp add: live_def alice_bob_players stale_def timeout_def new_player_def)

lemma proto_bob_players:
  "players proto_bob =
     [(''__proto__'', new_player ''__proto__'' (JStr ''#FF4136'') 0 1),
      (''bob'', new_player ''bob'' (JStr ''#0074D9'') 0 2)]"
  by (simp add: proto_bob_def connect_defs del: JSON_stringify.simps)

lemma proto_bob_socks: "accepts (socks proto_bob) h"
  by (simp add: proto_bob_def connect_defs accepts_def del: JSON_stringify.simps)

lemma live_proto_bob: "live 100 proto_bob = players proto_bob"
  by (simp add: live_def proto_bob_players stale_def timeout_def new_player_def)

lemma snapshot_covers_ordinary_ids:
  assumes "distinct (map fst (players s))"
  shows
    "map fst (players (syncGameState now s)) = map fst (live now s) \<and>
     js_get (tick_frame now s) ''type'' = JStr ''gameState'' \<and>
     fst ` set (own_properties (js_get (tick_frame now s) ''players'')) =
       fst ` set (live now s) - {''__proto__''} \<and>
     (\<forall>(k, p) \<in> set (live now s).
        (k \<noteq> ''__proto__'' \<longrightarrow>
           js_get (js_get (tick_frame now s) ''players'') k = snapshot_entry p) \<and>
        own_properties (snapshot_entry p) =
          [(''id'', JStr (player_id p)), (''position'', position p), (''rotation'', rotation p),
           (''isAlienMode'', isAlienMode p), (''landedPlanetId'', landedPlanetId p)] \<and>
        (accepts (socks s) (socket p) \<longrightarrow>
           last (delivered (socks (syncGameState now s) (socket p))) = tick_frame now s)) \<and>
     (now - t \<le> timeout \<and> choose_id u g \<noteq> ''__proto__'' \<longrightarrow>
        js_get (js_get (tick_frame now (snd (on_connect ws u c g t s))) ''players'') (choose_id u g) =
          snapshot_entry (new_player (choose_id u g) (fst (choose_color c (nextColorIndex s))) t ws))"
proof (intro conjI ballI impI)
  show "map fst (players (syncGameState now s)) = map fst (live now s)"
    unfolding live_def using assms by (rule keys_syncGameState)
  show "js_get (tick_frame now s) ''type'' = JStr ''gameState''"
    by (simp add: tick_frame_def gameStateData_def)
  show "fst ` set (own_properties (js_get (tick_frame now s) ''players'')) =
       fst ` set (live now s) - {''__proto__''}"
    by (force simp: tick_frame_players [OF assms])
next
  fix kp assume kp: "kp \<in> set (live now s)"
  obtain k p where [simp]: "kp = (k, p)" by (cases kp)
  have "k \<noteq> ''__proto__'' \<longrightarrow>
      js_get (js_get (tick_frame now s) ''players'') k = snapshot_entry p"
    using tick_frame_entry [OF assms] kp by simp
  moreover have "own_properties (snapshot_entry p) =
          [(''id'', JStr (player_id p)), (''position'', position p), (''rotation'', rotation p),
           (''isAlienMode'', isAlienMode p), (''landedPlanetId'', landedPlanetId p)]"
    by (simp add: snapshot_entry_def)
  moreover have "accepts (socks s) (socket p) \<longrightarrow>
           last (delivered (socks (syncGameState now s) (socket p))) = tick_frame now s"
    using tick_last_frame [OF assms] kp by simp
  ultimately show "case kp of (k, p) \<Rightarrow>
        (k \<noteq> ''__proto__'' \<longrightarrow>
           js_get (js_get (tick_frame now s) ''players'') k = snapshot_entry p) \<and>
        own_properties (snapshot_entry p) =
          [(''id'', JStr (player_id p)), (''position'', position p), (''rotation'', rotation p),
           (''isAlienMode'', isAlienMode p), (''landedPlanetId'', landedPlanetId p)] \<and>
        (accepts (socks s) (socket p) \<longrightarrow>
           last (delivered (socks (syncGameState now s) (socket p))) = tick_frame now s)"
    by simp
next
  assume a: "now - t \<le> timeout \<and> choose_id u g \<noteq> ''__proto__''"
  then have "(choose_id u g, new_player (choose_id u g) (fst (choose_color c (nextColorIndex s))) t ws)
           \<in> set (live now (snd (on_connect ws u c g t s)))"
    by (intro connected_is_live) simp
  moreover have "distinct (map fst (players (snd (on_connect ws u c g t s))))"
    using assms by (rule distinct_on_connect)
  ultimately show "js_get (js_get (tick_frame now (snd (on_connect ws u c g t s))) ''players'')
        (choose_id u g) =
          snapshot_entry (new_player (choose_id u g) (fst (choose_color c (nextColorIndex s))) t ws)"
    using a by (intro tick_frame_entry) simp_all
qed

subsection \<open>The frames as serialised\<close>

lemma stringify_Undefined [simp]: "(JSON_stringify v = JUndefined) = (v = JUndefined)"
  by (cases v) (auto elim: written_number.elims)

lemma written_as_is_stringify: "written_as_is v \<Longrightarrow> JSON_stringify v = v"
proof (induction v)
  case (JArr xs)
  then have "\<forall>x \<in> set xs. JSON_stringify x = x \<and> x \<noteq> JUndefined"
    by (fastforce simp: list_all_iff)
  then have "map (\<lambda>v. if v = JUndefined then JNull else v) (map JSON_stringify xs) = xs"
    by (induction xs) auto
  then show ?case by simp
next
  case (JObj kvs)
  then have "\<forall>kv \<in> set kvs. JSON_stringify (snd kv) = snd kv \<and> snd kv \<noteq> JUndefined"
    by (fastforce simp: list_all_iff)
  then have "filter (\<lambda>(k, v). v \<noteq> JUndefined) (map (map_prod id JSON_stringify) kvs) = kvs"
    by (induction kvs) auto
  then show ?case by simp
qed (auto split: jsnum.splits)

lemma broadcastToAll_loop_wire:
  "wire (broadcastToAll_loop ps d ss h) =
     wire (ss h) @
       (if accepts ss h
        then replicate (length (filter (\<lambda>p. socket p = h) ps)) (JSON_stringify d) else [])"
proof (induction ps arbitrary: ss)
  case Nil
  show ?case by simp
next
  case (Cons p ps)
  let ?ss1 = "if readyState (ss (socket p)) = OPEN
        then (case ws_send (socket p) d ss of Some ss' \<Rightarrow> ss' | None \<Rightarrow> ss)
        else ss"
  have acc: "accepts ?ss1 h = accepts ss h"
    by (auto simp: accepts_def ws_send_def)
  have one: "wire (?ss1 h) =
      wire (ss h) @ (if accepts ss h \<and> socket p = h then [JSON_stringify d] else [])"
    by (auto simp: accepts_def ws_send_def)
  have "wire (broadcastToAll_loop (p # ps) d ss h) = wire (broadcastToAll_loop ps d ?ss1 h)"
    by simp
  also have "\<dots> = wire (?ss1 h) @
       (if accepts ?ss1 h
        then replicate (length (filter (\<lambda>p. socket p = h) ps)) (JSON_stringify d) else [])"
    by (rule Cons.IH)
  also have "\<dots> = wire (ss h) @
       (if accepts ss h
        then replicate (length (filter (\<lambda>p. socket p = h) (p # ps))) (JSON_stringify d)
        else [])"
    unfolding acc one by (simp add: replicate_append_same)
  finally show ?case .
qed

lemma broadcastToAll_wire:
  "wire (socks (broadcastToAll d s) h) =
     wire (socks s h) @
       (if accepts (socks s) h then replicate (uses_socket h (players s)) (JSON_stringify d)
        else [])"
  by (simp add: broadcastToAll_def broadcastToAll_loop_wire uses_socket_def)

lemma stringify_bombPlaced:
  assumes "js_truthy (js_get data ''planetId'')" and "numeric_vector (js_get data ''position'')"
  shows "JSON_stringify (bombPlaced_frame playerId data) = JObj
     [(''type'', JStr ''bombPlaced''),
      (''playerId'', JStr playerId),
      (''planetId'', JSON_stringify (js_get data ''planetId'')),
      (''position'', JSON_stringify (js_get data ''position'')),
      (''countdown'',
         if js_truthy (js_get data ''countdown'') then JSON_stringify (js_get data ''countdown'')
         else num 10)]"
proof -
  from assms(1) have p: "js_get data ''planetId'' \<noteq> JUndefined" by auto
  from assms(2) have q: "js_get data ''position'' \<noteq> JUndefined" by auto
  have c: "js_truthy (js_get data ''countdown'') \<Longrightarrow> js_get data ''countdown'' \<noteq> JUndefined"
    by auto
  show ?thesis
    using p q c by (simp add: bombPlaced_frame_def num_def del: js_get.simps)
qed

lemma uses_socket_alice_bob: "uses_socket 2 (players alice_bob) = 1"
  by (simp add: alice_bob_players uses_socket_def new_player_def)

lemma stringify_playerLeft [simp]: "JSON_stringify (playerLeft_frame k) = playerLeft_frame k"
  by (simp add: playerLeft_frame_def)







section \<open>Claims\<close>

subsection \<open>C1: eviction of a silent client\<close>

text \<open>
  C1 says that a client which connects and then sends nothing for 31 seconds, while the
  100 ms cycle keeps running, is removed within one sweep after the 30 second mark, and
  that every other client then receives \<^verbatim>\<open>playerLeft\<close> with its id.

  The code does not do this. The last loop of \<^verbatim>\<open>syncGameState\<close> sets \<^verbatim>\<open>lastUpdate\<close> to
  \<open>now\<close> for every session whose last update is older than \<^verbatim>\<open>SYNC_RATE * 2\<close>, so the
  sweep of the next tick never sees an age above 300 ms. In the run below alice and bob
  connect at time 0 and 310 ticks follow (31 seconds): alice is still registered and bob has
  received no \<^verbatim>\<open>playerLeft\<close> for her.
\<close>

theorem silent_client_not_evicted_counterexample:
  "''alice'' \<in> fst ` set (players (run_ticks 0 310 alice_bob)) \<and>
   playerLeft_frame ''alice'' \<notin> set (delivered (socks (run_ticks 0 310 alice_bob) 2))"
proof -
  have d: "distinct (map fst (players alice_bob))"
    by (simp add: alice_bob_players)
  have m: "map_of (players alice_bob) ''alice'' = Some (new_player ''alice'' (JStr ''#FF4136'') 0 1)"
    by (simp add: alice_bob_players)
  have a: "0 - lastUpdate (new_player ''alice'' (JStr ''#FF4136'') 0 1) \<le> 2 * SYNC_RATE"
    by (simp add: new_player_def SYNC_RATE_def)
  from run_ticks_keeps [OF d m a, of 310 2] obtain p' fs where
    "map_of (players (run_ticks 0 310 alice_bob)) ''alice'' = Some p'"
    "delivered (socks (run_ticks 0 310 alice_bob) 2) = delivered (socks alice_bob 2) @ fs"
    "playerLeft_frame ''alice'' \<notin> set fs"
    by blast
  then show ?thesis
    using alice_bob_socks(2) by (auto dest: map_of_SomeD intro: rev_image_eqI)
qed

text \<open>
  C1 as amended. Let the registry have unique keys (it is a Map) and hold session \<open>p\<close>
  under id \<open>k\<close>. (1) If \<open>p\<close> is at most 200 ms old at time \<open>t\<close>, then after any number \<open>n\<close> of
  ticks at \<open>t + 100\<close>, \<open>t + 200\<close>, ... the id is still registered with the same handle, and no
  handle has been sent a \<^verbatim>\<open>playerLeft\<close> carrying \<open>k\<close> in the meantime. (2) A single tick at
  time \<open>now\<close> keeps the session when \<open>now - lastUpdate \<le> 30000\<close>, and (3) removes it when
  \<open>now - lastUpdate > 30000\<close>; in that case every session left in the registry whose handle
  accepts frames has been sent \<^verbatim>\<open>playerLeft\<close> with id \<open>k\<close>.
\<close>

theorem sweep_spares_refreshed_sessions:
  assumes "distinct (map fst (players s))" and "map_of (players s) k = Some p"
  shows "(t - lastUpdate p \<le> 2 * SYNC_RATE \<longrightarrow>
            (\<exists>p'. map_of (players (run_ticks t n s)) k = Some p' \<and> socket p' = socket p) \<and>
            (\<exists>fs. delivered (socks (run_ticks t n s) h) = delivered (socks s h) @ fs \<and>
                  playerLeft_frame k \<notin> set fs)) \<and>
         (now - lastUpdate p \<le> timeout \<longrightarrow>
            map_of (players (syncGameState now s)) k = Some (refresh now p)) \<and>
         (now - lastUpdate p > timeout \<longrightarrow>
            map_of (players (syncGameState now s)) k = None \<and>
            (\<forall>(k', p') \<in> set (players (syncGameState now s)).
               accepts (socks s) (socket p') \<longrightarrow>
               playerLeft_frame k \<in> set (delivered (socks (syncGameState now s) (socket p')))))"
proof (intro conjI impI)
  assume "t - lastUpdate p \<le> 2 * SYNC_RATE"
  from run_ticks_keeps [OF assms this, of n h]
  show "\<exists>p'. map_of (players (run_ticks t n s)) k = Some p' \<and> socket p' = socket p"
    and "\<exists>fs. delivered (socks (run_ticks t n s) h) = delivered (socks s h) @ fs \<and>
              playerLeft_frame k \<notin> set fs"
    by blast+
next
  assume "now - lastUpdate p \<le> timeout"
  then show "map_of (players (syncGameState now s)) k = Some (refresh now p)"
    using map_of_syncGameState [OF assms, of now] by (simp add: stale_def)
next
  assume st: "now - lastUpdate p > timeout"
  then show "map_of (players (syncGameState now s)) k = None"
    using map_of_syncGameState [OF assms, of now] by (simp add: stale_def)
  from st have "stale now p" by (simp add: stale_def)
  then show "\<forall>(k', p') \<in> set (players (syncGameState now s)).
               accepts (socks s) (socket p') \<longrightarrow>
               playerLeft_frame k \<in> set (delivered (socks (syncGameState now s) (socket p')))"
    using tick_evicts [OF assms] by blast
qed

theorem sweep_spares_refreshed_sessions_witness:
  "''alice'' \<in> fst ` set (players (run_ticks 0 600 alice_bob)) \<and>
   map_of (players (syncGameState 30001 alice_late_bob)) ''alice'' = None \<and>
   map_of (players (syncGameState 30001 alice_late_bob)) ''bob'' =
     Some (new_player ''bob'' (JStr ''#0074D9'') 30000 2) \<and>
   playerLeft_frame ''alice'' \<in> set (delivered (socks (syncGameState 30001 alice_late_bob) 2))"
proof -
  let ?a = "new_player ''alice'' (JStr ''#FF4136'') 0 1"
  let ?b = "new_player ''bob'' (JStr ''#0074D9'') 30000 2"
  have d1: "distinct (map fst (players alice_bob))"
    and m1: "map_of (players alice_bob) ''alice'' = Some ?a"
    by (simp_all add: alice_bob_players)
  have d2: "distinct (map fst (players alice_late_bob))"
    and m2: "map_of (players alice_late_bob) ''alice'' = Some ?a"
    and m3: "map_of (players alice_late_bob) ''bob'' = Some ?b"
    by (simp_all add: alice_late_bob_players)
  have age: "0 - lastUpdate ?a \<le> 2 * SYNC_RATE" "30001 - lastUpdate ?a > timeout"
    "30001 - lastUpdate ?b \<le> timeout" "refresh 30001 ?b = ?b" "socket ?b = 2"
    by (simp_all add: new_player_def SYNC_RATE_def timeout_def refresh_def)
  from sweep_spares_refreshed_sessions [OF d1 m1, of 0 600 2 0] age(1)
  have "\<exists>p'. map_of (players (run_ticks 0 600 alice_bob)) ''alice'' = Some p'"
    by blast
  then have one: "''alice'' \<in> fst ` set (players (run_ticks 0 600 alice_bob))"
    by (auto dest: map_of_SomeD intro: rev_image_eqI)
  from sweep_spares_refreshed_sessions [OF d2 m3, of 0 0 0 30001] age(3,4)
  have two: "map_of (players (syncGameState 30001 alice_late_bob)) ''bob'' = Some ?b"
    by simp
  then have mem: "(''bob'', ?b) \<in> set (players (syncGameState 30001 alice_late_bob))"
    by (rule map_of_SomeD)
  from sweep_spares_refreshed_sessions [OF d2 m2, of 0 0 0 30001] age(2)
  have three: "map_of (players (syncGameState 30001 alice_late_bob)) ''alice'' = None"
    and all: "\<forall>(k', p') \<in> set (players (syncGameState 30001 alice_late_bob)).
               accepts (socks alice_late_bob) (socket p') \<longrightarrow>
               playerLeft_frame ''alice'' \<in>
                 set (delivered (socks (syncGameState 30001 alice_late_bob) (socket p')))"
    by simp_all
  from all mem alice_late_bob_socks [of 2] age(5)
  have "playerLeft_frame ''alice'' \<in>
          set (delivered (socks (syncGameState 30001 alice_late_bob) 2))"
    by fastforce
  with one two three show ?thesis by simp
qed

subsection \<open>C2: one live session per id\<close>

text \<open>
  C2 says that an id identifies at most one live session and that a connect whose id
  collides with a live session's id does not silently overwrite that session's open handle
  in the registry. The handler takes the \<^verbatim>\<open>username\<close> parameter as the id (under the
  comment \<^verbatim>\<open>// Generate a unique ID for the new player\<close>) and calls \<^verbatim>\<open>players.set\<close> without
  looking for an existing entry. Evaluated for two connects as alice: handle 1 is still
  open, the registry's only entry for alice now holds handle 2, and when the first
  connection closes, its close handler deletes the entry of the second.
\<close>

theorem colliding_connect_overwrites_open_handle:
  "readyState (socks alice_twice 1) = OPEN \<and>
   map (\<lambda>(k, p). (k, socket p)) (players alice_twice) = [(''alice'', 2)] \<and>
   players (on_close ''alice'' alice_twice) = []"
  by (simp add: alice_twice_def connect_defs del: JSON_stringify.simps)

subsection \<open>C3: fan-out survives a failing send\<close>

text \<open>
  C3 says that in every fan-out, to all sessions or to all but the sender, each send is
  caught on its own, so that the remaining recipients are still served. This holds for
  \<^verbatim>\<open>broadcastToAll\<close> (lemma \<open>broadcastToAll_delivered\<close>) and fails for \<^verbatim>\<open>broadcastToOthers\<close>,
  which has no \<^verbatim>\<open>try\<close>. Evaluated for dave connecting while bob's handle raises: the
  connection handler ends with the exception, alice has received \<^verbatim>\<open>playerJoined\<close>, and carol,
  whose handle is open and healthy and comes after bob in the registry, has not. The same
  frame sent with \<^verbatim>\<open>broadcastToAll\<close> reaches carol.
\<close>

theorem broadcastToOthers_stops_at_failing_send:
  "fst (on_connect 4 (Some ''dave'') None ''g4'' 10 bob_broken) = Threw \<and>
   playerJoined_frame dave \<in>
     set (delivered (socks (snd (on_connect 4 (Some ''dave'') None ''g4'' 10 bob_broken)) 1)) \<and>
   playerJoined_frame dave \<notin>
     set (delivered (socks (snd (on_connect 4 (Some ''dave'') None ''g4'' 10 bob_broken)) 3)) \<and>
   readyState (socks bob_broken 3) = OPEN \<and> \<not> sendThrows (socks bob_broken 3) \<and>
   playerJoined_frame dave \<in>
     set (delivered (socks (broadcastToAll (playerJoined_frame dave) bob_broken) 3))"
proof -
  have run: "on_connect 4 (Some ''dave'') None ''g4'' 10 bob_broken =
      (Threw,
       bob_broken\<lparr>players := players three_clients @ [(''dave'', dave)],
                  nextColorIndex := 4,
                  socks := (socks bob_broken)
                    (4 := (socks bob_broken 4)\<lparr>delivered := delivered (socks bob_broken 4) @
                         [init_frame ''dave'' (JStr ''#FFDC00'')
                            (bob_broken\<lparr>players := players three_clients @ [(''dave'', dave)],
                                        nextColorIndex := 4\<rparr>)],
                       wire := wire (socks bob_broken 4) @
                         [JSON_stringify (init_frame ''dave'' (JStr ''#FFDC00'')
                            (bob_broken\<lparr>players := players three_clients @ [(''dave'', dave)],
                                        nextColorIndex := 4\<rparr>))]\<rparr>,
                     1 := (socks bob_broken 1)\<lparr>delivered := delivered (socks bob_broken 1) @
                         [playerJoined_frame dave],
                       wire := wire (socks bob_broken 1) @
                         [JSON_stringify (playerJoined_frame dave)]\<rparr>)\<rparr>)"
    by (simp add: on_connect_def choose_id_def choose_color_def palette_def playerColors_def
        sendToPlayer_def broadcastToOthers_def ws_send_def Let_def bob_broken_facts
        three_clients_players dave_def new_player_def)
  have all: "playerJoined_frame dave \<in>
     set (delivered (socks (broadcastToAll (playerJoined_frame dave) bob_broken) 3))"
    by (simp add: broadcastToAll_delivered accepts_def bob_broken_facts three_clients_players
        uses_socket_def new_player_def)
  show ?thesis
    unfolding run using all three_clients_carol by (simp add: bob_broken_facts)
qed

subsection \<open>C4: the close handler for an absent id\<close>

text \<open>
  C4 says that running the disconnect path for an id that is not in the registry is a
  no-op: no error and no further \<^verbatim>\<open>playerLeft\<close>. The close handler calls \<^verbatim>\<open>broadcastToAll\<close>
  before it looks at the registry, whatever the registry holds. In the run below alice's
  close handler runs twice; after the first run alice is gone from the registry and bob has
  one \<^verbatim>\<open>playerLeft\<close> for alice, after the second run he has two.
\<close>

theorem second_close_repeats_playerLeft_counterexample:
  "''alice'' \<notin> fst ` set (players (on_close ''alice'' alice_bob)) \<and>
   count_list (delivered (socks (on_close ''alice'' alice_bob) 2)) (playerLeft_frame ''alice'') = 1 \<and>
   count_list (delivered (socks (on_close ''alice'' (on_close ''alice'' alice_bob)) 2))
     (playerLeft_frame ''alice'') = 2"
proof -
  have zero: "count_list (delivered (socks alice_bob 2)) (playerLeft_frame ''alice'') = 0"
    using alice_bob_socks(2) by (simp add: count_list_0_iff)
  have u1: "uses_socket 2 (players alice_bob) = 1"
    and u2: "uses_socket 2 (AList.delete ''alice'' (players alice_bob)) = 1"
    by (simp_all add: alice_bob_players uses_socket_def new_player_def)
  have gone: "''alice'' \<notin> fst ` set (players (on_close ''alice'' alice_bob))"
    by (simp add: alice_bob_players)
  have "count_list (delivered (socks (on_close ''alice'' alice_bob) 2)) (playerLeft_frame ''alice'') = 1"
    and "count_list (delivered (socks (on_close ''alice'' (on_close ''alice'' alice_bob)) 2))
     (playerLeft_frame ''alice'') = 2"
    using zero alice_bob_socks(1) [of 2]
    by (simp_all add: on_close_delivered u1 u2)
  with gone show ?thesis by blast
qed

text \<open>
  C4 as amended. When \<open>playerId\<close> is not in the registry, the close handler leaves the
  registry and the colour counter as they are and raises nothing (it returns a state), but
  it still sends \<^verbatim>\<open>playerLeft\<close> with that id: each handle that accepts frames receives it once
  per registered session using the handle, so every registered session with such a handle
  receives it.
\<close>

theorem close_of_absent_id_still_broadcasts:
  assumes "playerId \<notin> fst ` set (players s)"
  shows "players (on_close playerId s) = players s \<and>
         nextColorIndex (on_close playerId s) = nextColorIndex s \<and>
         (\<forall>h. delivered (socks (on_close playerId s) h) =
                delivered (socks s h) @
                  (if accepts (socks s) h
                   then replicate (uses_socket h (players s)) (playerLeft_frame playerId)
                   else [])) \<and>
         (\<forall>(k, p) \<in> set (players s). accepts (socks s) (socket p) \<longrightarrow>
            playerLeft_frame playerId \<in> set (delivered (socks (on_close playerId s) (socket p))))"
proof (intro conjI allI)
  show "players (on_close playerId s) = players s"
    using assms by simp
  show "nextColorIndex (on_close playerId s) = nextColorIndex s"
    by simp
  show "delivered (socks (on_close playerId s) h) =
          delivered (socks s h) @
            (if accepts (socks s) h
             then replicate (uses_socket h (players s)) (playerLeft_frame playerId)
             else [])" for h
    by (rule on_close_delivered)
  show "\<forall>(k, p) \<in> set (players s). accepts (socks s) (socket p) \<longrightarrow>
            playerLeft_frame playerId \<in> set (delivered (socks (on_close playerId s) (socket p)))"
    using uses_socket_pos by (fastforce simp: on_close_delivered)
qed

theorem close_of_absent_id_still_broadcasts_witness:
  "players (on_close ''zoe'' alice_bob) = players alice_bob \<and>
   delivered (socks (on_close ''zoe'' alice_bob) 2) =
     delivered (socks alice_bob 2) @ [playerLeft_frame ''zoe''] \<and>
   playerLeft_frame ''zoe'' \<in> set (delivered (socks (on_close ''zoe'' alice_bob) 1))"
proof -
  have absent: "''zoe'' \<notin> fst ` set (players alice_bob)"
    by (simp add: alice_bob_players)
  have u: "uses_socket 2 (players alice_bob) = 1"
    by (simp add: alice_bob_players uses_socket_def new_player_def)
  have mem: "(''alice'', new_player ''alice'' (JStr ''#FF4136'') 0 1) \<in> set (players alice_bob)"
    by (simp add: alice_bob_players)
  from close_of_absent_id_still_broadcasts [OF absent]
  have a: "players (on_close ''zoe'' alice_bob) = players alice_bob"
    and b: "delivered (socks (on_close ''zoe'' alice_bob) 2) =
                delivered (socks alice_bob 2) @
                  (if accepts (socks alice_bob) 2
                   then replicate (uses_socket 2 (players alice_bob)) (playerLeft_frame ''zoe'')
                   else [])"
    and c: "\<forall>(k, p) \<in> set (players alice_bob). accepts (socks alice_bob) (socket p) \<longrightarrow>
            playerLeft_frame ''zoe'' \<in> set (delivered (socks (on_close ''zoe'' alice_bob) (socket p)))"
    by blast+
  from c mem alice_bob_socks(1) [of 1]
  have "playerLeft_frame ''zoe'' \<in> set (delivered (socks (on_close ''zoe'' alice_bob) 1))"
    by (fastforce simp: new_player_def)
  with a b u alice_bob_socks(1) [of 2] show ?thesis by simp
qed

subsection \<open>C5: every termination broadcasts playerLeft\<close>




subsection \<open>C6: updatePosition and its validation\<close>

text \<open>
  C6 says that an \<^verbatim>\<open>updatePosition\<close> message overwrites the stored position and rotation
  if and only if both vectors are present and have three finite numeric components. The
  validators test \<^verbatim>\<open>typeof\<close> and \<^verbatim>\<open>isNaN\<close> only, so an infinite component passes:
  \<^verbatim>\<open>JSON.parse\<close> reads \<^verbatim>\<open>1e999\<close> as \<^verbatim>\<open>Infinity\<close>. In the run below alice's stored position is
  replaced by a vector that is not finite.
\<close>

theorem infinite_component_is_stored_counterexample:
  "\<not> finite_vector (js_get infinite_update ''position'') \<and>
   map_option position (map_of (players alice_bob) ''alice'') = Some (vec3 0 100 0) \<and>
   map_option position
     (map_of (players (updatePlayerPosition ''alice'' infinite_update 7 alice_bob)) ''alice'') =
     Some (JObj [(''x'', JNum PosInf), (''y'', num 0), (''z'', num 0)])"
  by (simp add: alice_bob_players updatePlayerPosition_def isValidPosition_numeric
      isValidRotation_numeric infinite_update_def vec3_def num_def new_player_def)

text \<open>
  C6 as amended. If the sender's session exists and both \<^verbatim>\<open>position\<close> and \<^verbatim>\<open>rotation\<close> of
  the payload are objects whose \<open>x\<close>, \<open>y\<close>, \<open>z\<close> are numbers other than NaN (infinities
  included), the session's position and rotation become the payload's and its
  \<^verbatim>\<open>lastUpdate\<close> becomes \<open>now\<close>; every other session, and the order of the registry, stay as
  they are. If the session does not exist or either vector fails that test (a NaN, a
  missing or non-numeric component, an absent vector), the state is unchanged. No frame is
  sent in either case.
\<close>

theorem updatePosition_overwrites_iff_not_NaN:
  "(map_of (players s) playerId = Some p \<and>
    numeric_vector (js_get data ''position'') \<and> numeric_vector (js_get data ''rotation'') \<longrightarrow>
      map_of (players (updatePlayerPosition playerId data now s)) =
        (map_of (players s))(playerId \<mapsto>
           p\<lparr>position := js_get data ''position'', rotation := js_get data ''rotation'',
              lastUpdate := now\<rparr>) \<and>
      map fst (players (updatePlayerPosition playerId data now s)) = map fst (players s)) \<and>
   (map_of (players s) playerId = None \<or>
    \<not> numeric_vector (js_get data ''position'') \<or> \<not> numeric_vector (js_get data ''rotation'') \<longrightarrow>
      updatePlayerPosition playerId data now s = s) \<and>
   socks (updatePlayerPosition playerId data now s) = socks s"
proof -
  have keys: "map fst (AList.update playerId q (players s)) = map fst (players s)"
    if "map_of (players s) playerId = Some p" for q
  proof -
    from that have "playerId \<in> set (map fst (players s))"
      by (metis map_of_eq_None_iff option.distinct(1) set_map)
    then show ?thesis by (simp add: update_keys)
  qed
  show ?thesis
    using keys
    by (auto simp: updatePlayerPosition_def isValidPosition_numeric isValidRotation_numeric
        update_conv' split: option.splits)
qed

theorem updatePosition_overwrites_iff_not_NaN_witness:
  "map_option position
     (map_of (players (updatePlayerPosition ''alice'' good_update 7 alice_bob)) ''alice'') =
     Some (vec3 1 2 3) \<and>
   updatePlayerPosition ''alice'' nan_update 7 alice_bob = alice_bob \<and>
   updatePlayerPosition ''alice'' (JObj [(''position'', vec3 1 2 3)]) 7 alice_bob = alice_bob"
proof -
  let ?a = "new_player ''alice'' (JStr ''#FF4136'') 0 1"
  have m: "map_of (players alice_bob) ''alice'' = Some ?a"
    by (simp add: alice_bob_players)
  have good: "numeric_vector (js_get good_update ''position'')"
    "numeric_vector (js_get good_update ''rotation'')"
    "js_get good_update ''position'' = vec3 1 2 3"
    by (simp_all add: good_update_def vec3_def num_def)
  have bad: "\<not> numeric_vector (js_get nan_update ''position'')"
    "\<not> numeric_vector (js_get (JObj [(''position'', vec3 1 2 3)]) ''rotation'')"
    by (simp_all add: nan_update_def vec3_def num_def)
  have one: "map_of (players (updatePlayerPosition ''alice'' good_update 7 alice_bob)) =
        (map_of (players alice_bob))(''alice'' \<mapsto>
           ?a\<lparr>position := js_get good_update ''position'',
               rotation := js_get good_update ''rotation'', lastUpdate := 7\<rparr>)"
    using updatePosition_overwrites_iff_not_NaN [of alice_bob "''alice''" ?a good_update 7] m good(1,2) by blast
  have two: "updatePlayerPosition ''alice'' nan_update 7 alice_bob = alice_bob"
    using updatePosition_overwrites_iff_not_NaN [of alice_bob "''alice''" ?a nan_update 7] bad(1) by blast
  have three: "updatePlayerPosition ''alice'' (JObj [(''position'', vec3 1 2 3)]) 7 alice_bob = alice_bob"
    using updatePosition_overwrites_iff_not_NaN [of alice_bob "''alice''" ?a "JObj [(''position'', vec3 1 2 3)]" 7] bad(2) by blast
  from one good(3) have "map_option position
     (map_of (players (updatePlayerPosition ''alice'' good_update 7 alice_bob)) ''alice'') =
     Some (vec3 1 2 3)"
    by simp
  with two three show ?thesis by simp
qed

subsection \<open>C7: chat relay\<close>

text \<open>
  C7 says that a chat message is relayed if and only if the sender's session exists and
  the message is non-empty and at most 200 characters after trim. \<^verbatim>\<open>broadcastChat\<close> tests
  \<^verbatim>\<open>!message\<close> and \<^verbatim>\<open>message.length > 200\<close> on the message as received: it never trims. A
  message of two blanks is empty after trim and is relayed all the same.
\<close>

theorem blank_chat_message_is_relayed_counterexample:
  "js_trim ''  '' = [] \<and>
   delivered (socks (snd (broadcastChat no_coercion ''alice'' (JStr ''  '') alice_bob)) 2) =
     delivered (socks alice_bob 2) @ [chat_frame ''alice'' (JStr ''#FF4136'') ''  '']"
proof -
  have m: "map_of (players alice_bob) ''alice'' = Some (new_player ''alice'' (JStr ''#FF4136'') 0 1)"
    by (simp add: alice_bob_players)
  have e: "escape ''  '' = ''  ''"
    by (simp add: escape_def escape_char_def)
  have t: "js_trim ''  '' = []"
    by (simp add: js_trim_def is_space_def)
  have u: "uses_socket 2 (players alice_bob) = 1"
    by (simp add: alice_bob_players uses_socket_def new_player_def)
  show ?thesis
    using alice_bob_socks(1) [of 2] t
    by (simp add: broadcastChat_relays [OF m] broadcastToAll_loop_uses u e new_player_def)
qed

text \<open>
  C7 as amended. If the sender's session exists and the message is a string that is
  non-empty and at most 200 characters long as received, then the handler returns, the
  registry is unchanged, and the frame \<^verbatim>\<open>chat\<close> with the sender's id, the sender's colour
  and the message with every \<open><\<close> replaced by \<open>&lt;\<close> and every \<open>>\<close> by \<open>&gt;\<close> is sent to every
  registered session whose handle accepts frames, the sender's own session among them. In
  every other case where the session is missing, the message is empty or longer than 200
  characters, or it is not a string, nothing is sent and the state is unchanged.
\<close>

theorem chat_relayed_iff_untrimmed_length_ok:
  "(map_of (players s) playerId = Some p \<and> m \<noteq> [] \<and> length m \<le> 200 \<longrightarrow>
      fst (broadcastChat tn playerId (JStr m) s) = Returned \<and>
      players (snd (broadcastChat tn playerId (JStr m) s)) = players s \<and>
      (\<forall>h. delivered (socks (snd (broadcastChat tn playerId (JStr m) s)) h) =
             delivered (socks s h) @
               (if accepts (socks s) h
                then replicate (uses_socket h (players s))
                       (JObj [(''type'', JStr ''chat''), (''playerId'', JStr playerId),
                              (''playerColor'', color p), (''message'', JStr (escape m))])
                else [])) \<and>
      (\<forall>(k, q) \<in> set (players s). accepts (socks s) (socket q) \<longrightarrow>
         JObj [(''type'', JStr ''chat''), (''playerId'', JStr playerId),
               (''playerColor'', color p), (''message'', JStr (escape m))]
           \<in> set (delivered (socks (snd (broadcastChat tn playerId (JStr m) s)) (socket q)))) \<and>
      (playerId, p) \<in> set (players s) \<and>
      CHR ''<'' \<notin> set (escape m) \<and> CHR ''>'' \<notin> set (escape m)) \<and>
   (map_of (players s) playerId = None \<or>
    (case message of JStr m \<Rightarrow> m = [] \<or> 200 < length m | _ \<Rightarrow> True) \<longrightarrow>
      snd (broadcastChat tn playerId message s) = s)"
proof (intro conjI impI allI)
  assume a: "map_of (players s) playerId = Some p \<and> m \<noteq> [] \<and> length m \<le> 200"
  let ?F = "JObj [(''type'', JStr ''chat''), (''playerId'', JStr playerId),
                  (''playerColor'', color p), (''message'', JStr (escape m))]"
  have F: "chat_frame playerId (color p) (escape m) = ?F"
    by (simp add: chat_frame_def)
  from a have eq: "broadcastChat tn playerId (JStr m) s =
     (Returned, s\<lparr>socks := broadcastToAll_loop (map snd (players s)) ?F (socks s)\<rparr>)"
    unfolding F [symmetric] by (intro broadcastChat_relays) simp_all
  show "fst (broadcastChat tn playerId (JStr m) s) = Returned"
    and "players (snd (broadcastChat tn playerId (JStr m) s)) = players s"
    unfolding eq by simp_all
  show del: "delivered (socks (snd (broadcastChat tn playerId (JStr m) s)) h) =
             delivered (socks s h) @
               (if accepts (socks s) h then replicate (uses_socket h (players s)) ?F else [])" for h
    unfolding eq by (simp add: broadcastToAll_loop_uses)
  show "\<forall>(k, q) \<in> set (players s). accepts (socks s) (socket q) \<longrightarrow>
         ?F \<in> set (delivered (socks (snd (broadcastChat tn playerId (JStr m) s)) (socket q)))"
    using uses_socket_pos by (fastforce simp: del)
  from a show "(playerId, p) \<in> set (players s)"
    by (simp add: map_of_SomeD)
  show "CHR ''<'' \<notin> set (escape m)" and "CHR ''>'' \<notin> set (escape m)"
    using escape_no_brackets by blast+
next
  assume "map_of (players s) playerId = None \<or>
    (case message of JStr m \<Rightarrow> m = [] \<or> 200 < length m | _ \<Rightarrow> True)"
  then show "snd (broadcastChat tn playerId message s) = s"
    by (rule broadcastChat_drops)
qed

theorem chat_relayed_iff_untrimmed_length_ok_witness:
  "delivered (socks (snd (broadcastChat no_coercion ''alice'' (JStr ''hi <b>bob</b>'') alice_bob)) 1) =
     delivered (socks alice_bob 1) @
       [JObj [(''type'', JStr ''chat''), (''playerId'', JStr ''alice''),
              (''playerColor'', JStr ''#FF4136''),
              (''message'', JStr ''hi &lt;b&gt;bob&lt;/b&gt;'')]] \<and>
   snd (broadcastChat no_coercion ''alice'' (JStr []) alice_bob) = alice_bob \<and>
   snd (broadcastChat no_coercion ''alice'' (JStr (replicate 201 CHR ''a'')) alice_bob) = alice_bob \<and>
   snd (broadcastChat no_coercion ''zoe'' (JStr ''hi'') alice_bob) = alice_bob"
proof -
  let ?a = "new_player ''alice'' (JStr ''#FF4136'') 0 1"
  have m: "map_of (players alice_bob) ''alice'' = Some ?a \<and> ''hi <b>bob</b>'' \<noteq> [] \<and>
      length ''hi <b>bob</b>'' \<le> 200"
    by (simp add: alice_bob_players)
  have u: "uses_socket (Suc 0) (players alice_bob) = Suc 0"
    by (simp add: alice_bob_players uses_socket_def new_player_def)
  have e: "escape ''hi <b>bob</b>'' = ''hi &lt;b&gt;bob&lt;/b&gt;''"
    by (simp add: escape_def escape_char_def)
  from chat_relayed_iff_untrimmed_length_ok [of alice_bob "''alice''" ?a "''hi <b>bob</b>''" no_coercion JNull] m
  have "delivered (socks (snd (broadcastChat no_coercion ''alice'' (JStr ''hi <b>bob</b>'') alice_bob)) 1) =
             delivered (socks alice_bob 1) @
               (if accepts (socks alice_bob) 1
                then replicate (uses_socket 1 (players alice_bob))
                       (JObj [(''type'', JStr ''chat''), (''playerId'', JStr ''alice''),
                              (''playerColor'', color ?a),
                              (''message'', JStr (escape ''hi <b>bob</b>''))])
                else [])"
    by blast
  then have one: "delivered (socks (snd (broadcastChat no_coercion ''alice'' (JStr ''hi <b>bob</b>'') alice_bob)) 1) =
     delivered (socks alice_bob 1) @
       [JObj [(''type'', JStr ''chat''), (''playerId'', JStr ''alice''),
              (''playerColor'', JStr ''#FF4136''),
              (''message'', JStr ''hi &lt;b&gt;bob&lt;/b&gt;'')]]"
    using alice_bob_socks(1) [of 1] by (simp add: u e new_player_def)
  have two: "snd (broadcastChat no_coercion ''alice'' (JStr []) alice_bob) = alice_bob"
    using chat_relayed_iff_untrimmed_length_ok [of alice_bob "''alice''" ?a "[]" no_coercion "JStr []"] by simp
  have three: "snd (broadcastChat no_coercion ''alice'' (JStr (replicate 201 CHR ''a'')) alice_bob) = alice_bob"
    using chat_relayed_iff_untrimmed_length_ok [of alice_bob "''alice''" ?a "[]" no_coercion "JStr (replicate 201 CHR ''a'')"]
    by simp
  have "map_of (players alice_bob) ''zoe'' = None"
    by (simp add: alice_bob_players)
  then have four: "snd (broadcastChat no_coercion ''zoe'' (JStr ''hi'') alice_bob) = alice_bob"
    using chat_relayed_iff_untrimmed_length_ok [of alice_bob "''zoe''" ?a "[]" no_coercion "JStr ''hi''"] by simp
  from one two three four show ?thesis by simp
qed

subsection \<open>C8: the snapshot of a tick\<close>

text \<open>
  C8 says that the players map of each \<^verbatim>\<open>gameState\<close> broadcast has an entry for every
  session live at that tick, in particular for a session that connected before it, and
  that each entry carries exactly \<open>id\<close>, \<open>position\<close>, \<open>rotation\<close>, \<open>isAlienMode\<close>,
  \<open>landedPlanetId\<close>. The entries of the object that the tick builds are as the claim says
  (serialised, an entry lacks \<open>landedPlanetId\<close> as long as the session has none, a property
  whose value is \<^verbatim>\<open>undefined\<close> being left out), and every live session has one
  (lemma \<open>snapshot_covers_ordinary_ids\<close>) unless its id is \<^verbatim>\<open>__proto__\<close>: the snapshot is a
  plain object filled by \<^verbatim>\<open>playersData[id] = {...}\<close>, and for that id the assignment sets the
  object's prototype instead of a property. Evaluated with \<^verbatim>\<open>__proto__\<close> and bob connected:
  after the tick both are registered, and the players map of the \<^verbatim>\<open>gameState\<close> frame that
  bob receives has the single key bob.
\<close>

theorem snapshot_omits_session_named_proto:
  "map fst (players (syncGameState 100 proto_bob)) = [''__proto__'', ''bob''] \<and>
   js_get (last (delivered (socks (syncGameState 100 proto_bob) 2))) ''type'' = JStr ''gameState'' \<and>
   map fst (own_properties
     (js_get (last (delivered (socks (syncGameState 100 proto_bob) 2))) ''players'')) = [''bob'']"
proof -
  have d: "distinct (map fst (players proto_bob))"
    by (simp add: proto_bob_players)
  have "map fst (players (syncGameState 100 proto_bob)) = map fst (live 100 proto_bob)"
    unfolding live_def using d by (rule keys_syncGameState)
  then have keys: "map fst (players (syncGameState 100 proto_bob)) = [''__proto__'', ''bob'']"
    by (simp add: live_proto_bob proto_bob_players)
  have mem: "(''bob'', new_player ''bob'' (JStr ''#0074D9'') 0 2) \<in> set (live 100 proto_bob)"
    by (simp add: live_proto_bob proto_bob_players)
  have last: "last (delivered (socks (syncGameState 100 proto_bob) 2)) = tick_frame 100 proto_bob"
    using tick_last_frame [OF d mem] proto_bob_socks [of 2] by (simp add: new_player_def)
  have ty: "js_get (tick_frame 100 proto_bob) ''type'' = JStr ''gameState''"
    by (simp add: tick_frame_def gameStateData_def)
  have pl: "map fst (own_properties (js_get (tick_frame 100 proto_bob) ''players'')) = [''bob'']"
    by (simp add: tick_frame_players [OF d] live_proto_bob proto_bob_players)
  show ?thesis
    unfolding last using keys ty pl by simp
qed

subsection \<open>C9: placeBomb\<close>

text \<open>
  C9 says that a \<^verbatim>\<open>placeBomb\<close> message with a truthy \<^verbatim>\<open>planetId\<close> and a position of three
  finite numbers is rebroadcast as a \<^verbatim>\<open>bombPlaced\<close> frame carrying the sender id, the
  \<^verbatim>\<open>planetId\<close>, the position and a countdown equal to the payload's value, or 10 when the
  payload supplies none, and that nothing is broadcast for an invalid position. Two
  payloads show where the code differs. The handler writes \<^verbatim>\<open>data.countdown || 10\<close>, which
  also replaces a supplied value that is falsy: a payload with countdown 0 is rebroadcast
  with countdown 10. And the validator tests \<^verbatim>\<open>typeof\<close> and \<^verbatim>\<open>isNaN\<close> only, while the frame is
  sent as \<^verbatim>\<open>JSON.stringify\<close> writes it: a payload whose position has \<^verbatim>\<open>Infinity\<close> as \<open>x\<close> and
  whose countdown is \<^verbatim>\<open>Infinity\<close> has no position of three finite numbers, yet it is
  rebroadcast, and the frame that bob receives carries \<^verbatim>\<open>null\<close> as \<open>x\<close> and as countdown,
  neither of them the payload's value.
\<close>

theorem bombPlaced_frame_differs_from_payload_counterexample:
  "js_get bomb_zero_countdown ''countdown'' = num 0 \<and>
   wire (socks (handleBombPlacement ''alice'' bomb_zero_countdown alice_bob) 2) =
     wire (socks alice_bob 2) @
       [JObj [(''type'', JStr ''bombPlaced''), (''playerId'', JStr ''alice''),
              (''planetId'', JStr ''p1''), (''position'', vec3 0 0 0), (''countdown'', num 10)]] \<and>
   \<not> finite_vector (js_get bomb_infinite ''position'') \<and>
   js_get bomb_infinite ''countdown'' = JNum PosInf \<and>
   wire (socks (handleBombPlacement ''alice'' bomb_infinite alice_bob) 2) =
     wire (socks alice_bob 2) @
       [JObj [(''type'', JStr ''bombPlaced''), (''playerId'', JStr ''alice''),
              (''planetId'', JStr ''p1''),
              (''position'', JObj [(''x'', JNull), (''y'', num 0), (''z'', num 0)]),
              (''countdown'', JNull)]]"
proof -
  have v: "js_truthy (js_get bomb_zero_countdown ''planetId'')"
    "numeric_vector (js_get bomb_zero_countdown ''position'')"
    by (simp_all add: bomb_zero_countdown_def vec3_def num_def)
  have w: "js_truthy (js_get bomb_infinite ''planetId'')"
    "numeric_vector (js_get bomb_infinite ''position'')"
    by (simp_all add: bomb_infinite_def num_def)
  have f: "JSON_stringify (bombPlaced_frame ''alice'' bomb_zero_countdown) =
      JObj [(''type'', JStr ''bombPlaced''), (''playerId'', JStr ''alice''),
              (''planetId'', JStr ''p1''), (''position'', vec3 0 0 0), (''countdown'', num 10)]"
    unfolding stringify_bombPlaced [OF v]
    by (simp add: bomb_zero_countdown_def num_def vec3_def)
  have g: "JSON_stringify (bombPlaced_frame ''alice'' bomb_infinite) =
      JObj [(''type'', JStr ''bombPlaced''), (''playerId'', JStr ''alice''),
              (''planetId'', JStr ''p1''),
              (''position'', JObj [(''x'', JNull), (''y'', num 0), (''z'', num 0)]),
              (''countdown'', JNull)]"
    unfolding stringify_bombPlaced [OF w]
    by (simp add: bomb_infinite_def num_def)
  have one: "wire (socks (handleBombPlacement ''alice'' bomb_zero_countdown alice_bob) 2) =
     wire (socks alice_bob 2) @
       [JObj [(''type'', JStr ''bombPlaced''), (''playerId'', JStr ''alice''),
              (''planetId'', JStr ''p1''), (''position'', vec3 0 0 0), (''countdown'', num 10)]]"
    using alice_bob_socks(1) [of 2]
    by (simp add: handleBombPlacement_valid [OF v] broadcastToAll_wire f uses_socket_alice_bob
        del: JSON_stringify.simps)
  have two: "wire (socks (handleBombPlacement ''alice'' bomb_infinite alice_bob) 2) =
     wire (socks alice_bob 2) @
       [JObj [(''type'', JStr ''bombPlaced''), (''playerId'', JStr ''alice''),
              (''planetId'', JStr ''p1''),
              (''position'', JObj [(''x'', JNull), (''y'', num 0), (''z'', num 0)]),
              (''countdown'', JNull)]]"
    using alice_bob_socks(1) [of 2]
    by (simp add: handleBombPlacement_valid [OF w] broadcastToAll_wire g uses_socket_alice_bob
        del: JSON_stringify.simps)
  have three: "js_get bomb_zero_countdown ''countdown'' = num 0"
    "\<not> finite_vector (js_get bomb_infinite ''position'')"
    "js_get bomb_infinite ''countdown'' = JNum PosInf"
    by (simp_all add: bomb_zero_countdown_def bomb_infinite_def num_def)
  from one two three show ?thesis by blast
qed

text \<open>
  C9 as amended. With a truthy \<^verbatim>\<open>planetId\<close> and a position that passes the validator
  (\<open>x\<close>, \<open>y\<close> and \<open>z\<close> numbers other than NaN, so that an infinite one passes), the frame
  \<^verbatim>\<open>bombPlaced\<close> is sent to every registered session whose handle accepts frames, once per
  session, and the registry is unchanged. The frame carries the sender's id, the payload's
  \<^verbatim>\<open>planetId\<close> and \<^verbatim>\<open>position\<close>, and a countdown equal to the payload's value when that value
  is truthy and 10 otherwise (no countdown, 0, null, false, the empty string), each of
  them as \<^verbatim>\<open>JSON.stringify\<close> writes it: a value made of \<^verbatim>\<open>null\<close>, booleans, finite numbers,
  strings, arrays and objects arrives as it is, and an infinite number arrives as \<^verbatim>\<open>null\<close>.
  With a missing or falsy \<^verbatim>\<open>planetId\<close> or a position that fails the validator the state is
  unchanged: nothing is sent.
\<close>

theorem bombPlaced_frame_as_serialised:
  "(js_truthy (js_get data ''planetId'') \<and> numeric_vector (js_get data ''position'') \<longrightarrow>
      players (handleBombPlacement playerId data s) = players s \<and>
      (\<forall>h. wire (socks (handleBombPlacement playerId data s) h) =
             wire (socks s h) @
               (if accepts (socks s) h
                then replicate (uses_socket h (players s))
                  (JObj [(''type'', JStr ''bombPlaced''),
                         (''playerId'', JStr playerId),
                         (''planetId'', JSON_stringify (js_get data ''planetId'')),
                         (''position'', JSON_stringify (js_get data ''position'')),
                         (''countdown'',
                            if js_truthy (js_get data ''countdown'')
                            then JSON_stringify (js_get data ''countdown'')
                            else num 10)])
                else [])) \<and>
      (\<forall>(k, q) \<in> set (players s). accepts (socks s) (socket q) \<longrightarrow>
         JObj [(''type'', JStr ''bombPlaced''),
               (''playerId'', JStr playerId),
               (''planetId'', JSON_stringify (js_get data ''planetId'')),
               (''position'', JSON_stringify (js_get data ''position'')),
               (''countdown'',
                  if js_truthy (js_get data ''countdown'')
                  then JSON_stringify (js_get data ''countdown'')
                  else num 10)]
           \<in> set (wire (socks (handleBombPlacement playerId data s) (socket q))))) \<and>
   (\<not> js_truthy (js_get data ''planetId'') \<or> \<not> numeric_vector (js_get data ''position'') \<longrightarrow>
      handleBombPlacement playerId data s = s) \<and>
   (written_as_is v \<longrightarrow> JSON_stringify v = v) \<and>
   JSON_stringify (JNum PosInf) = JNull \<and> JSON_stringify (JNum NegInf) = JNull"
proof (intro conjI impI allI)
  assume v: "js_truthy (js_get data ''planetId'') \<and> numeric_vector (js_get data ''position'')"
  let ?W = "JObj [(''type'', JStr ''bombPlaced''),
                  (''playerId'', JStr playerId),
                  (''planetId'', JSON_stringify (js_get data ''planetId'')),
                  (''position'', JSON_stringify (js_get data ''position'')),
                  (''countdown'',
                     if js_truthy (js_get data ''countdown'')
                     then JSON_stringify (js_get data ''countdown'')
                     else num 10)]"
  from v have eq: "handleBombPlacement playerId data s =
      broadcastToAll (bombPlaced_frame playerId data) s"
    by (simp add: handleBombPlacement_valid)
  from v have W: "JSON_stringify (bombPlaced_frame playerId data) = ?W"
    by (intro stringify_bombPlaced) simp_all
  show "players (handleBombPlacement playerId data s) = players s"
    unfolding eq by simp
  show del: "wire (socks (handleBombPlacement playerId data s) h) =
             wire (socks s h) @
               (if accepts (socks s) h then replicate (uses_socket h (players s)) ?W else [])"
    for h
    unfolding eq broadcastToAll_wire W ..
  show "\<forall>(k, q) \<in> set (players s). accepts (socks s) (socket q) \<longrightarrow>
         ?W \<in> set (wire (socks (handleBombPlacement playerId data s) (socket q)))"
  proof (intro ballI, clarify)
    fix k q assume "(k, q) \<in> set (players s)" and "accepts (socks s) (socket q)"
    then show "?W \<in> set (wire (socks (handleBombPlacement playerId data s) (socket q)))"
      using uses_socket_pos [of k q "players s"] unfolding del by simp
  qed
next
  assume "\<not> js_truthy (js_get data ''planetId'') \<or> \<not> numeric_vector (js_get data ''position'')"
  then show "handleBombPlacement playerId data s = s"
    by (rule handleBombPlacement_invalid)
next
  assume "written_as_is v" then show "JSON_stringify v = v" by (rule written_as_is_stringify)
qed simp_all

theorem bombPlaced_frame_as_serialised_witness:
  "wire (socks (handleBombPlacement ''alice'' bomb_no_countdown alice_bob) 2) =
     wire (socks alice_bob 2) @
       [JObj [(''type'', JStr ''bombPlaced''), (''playerId'', JStr ''alice''),
              (''planetId'', JStr ''p1''), (''position'', vec3 0 0 0), (''countdown'', num 10)]] \<and>
   handleBombPlacement ''alice'' (JObj [(''position'', vec3 0 0 0)]) alice_bob = alice_bob \<and>
   JSON_stringify (vec3 0 0 0) = vec3 0 0 0"
proof -
  have v: "js_truthy (js_get bomb_no_countdown ''planetId'')"
    "numeric_vector (js_get bomb_no_countdown ''position'')"
    "\<not> js_truthy (js_get (JObj [(''position'', vec3 0 0 0)]) ''planetId'')"
    "written_as_is (vec3 0 0 0)"
    by (simp_all add: bomb_no_countdown_def vec3_def num_def)
  have g: "js_get bomb_no_countdown ''planetId'' = JStr ''p1''"
    "js_get bomb_no_countdown ''position'' = vec3 0 0 0"
    "js_get bomb_no_countdown ''countdown'' = JUndefined"
    by (simp_all add: bomb_no_countdown_def)
  note inst = bombPlaced_frame_as_serialised [of bomb_no_countdown "''alice''" alice_bob "vec3 0 0 0"]
  from inst v(4) have s: "JSON_stringify (vec3 0 0 0) = vec3 0 0 0"
    by blast
  from inst v(1,2)
  have "wire (socks (handleBombPlacement ''alice'' bomb_no_countdown alice_bob) 2) =
             wire (socks alice_bob 2) @
               (if accepts (socks alice_bob) 2
                then replicate (uses_socket 2 (players alice_bob))
                  (JObj [(''type'', JStr ''bombPlaced''),
                         (''playerId'', JStr ''alice''),
                         (''planetId'', JSON_stringify (js_get bomb_no_countdown ''planetId'')),
                         (''position'', JSON_stringify (js_get bomb_no_countdown ''position'')),
                         (''countdown'',
                            if js_truthy (js_get bomb_no_countdown ''countdown'')
                            then JSON_stringify (js_get bomb_no_countdown ''countdown'')
                            else num 10)])
                else [])"
    by blast
  then have one: "wire (socks (handleBombPlacement ''alice'' bomb_no_countdown alice_bob) 2) =
     wire (socks alice_bob 2) @
       [JObj [(''type'', JStr ''bombPlaced''), (''playerId'', JStr ''alice''),
              (''planetId'', JStr ''p1''), (''position'', vec3 0 0 0), (''countdown'', num 10)]]"
    using alice_bob_socks(1) [of 2] unfolding g s
    by (simp add: uses_socket_alice_bob)
  from bombPlaced_frame_as_serialised [of "JObj [(''position'', vec3 0 0 0)]" "''alice''" alice_bob JNull] v(3)
  have "handleBombPlacement ''alice'' (JObj [(''position'', vec3 0 0 0)]) alice_bob = alice_bob"
    by blast
  with one s show ?thesis by simp
qed


subsection \<open>C10: the colour counter\<close>

text \<open>
  C10 says that a connect whose request supplies a \<^verbatim>\<open>color\<close> parameter leaves
  \<^verbatim>\<open>nextColorIndex\<close> unchanged. The handler tests \<^verbatim>\<open>!playerColor\<close>, which is also true of the
  empty string that \<^verbatim>\<open>urlParams.get('color')\<close> returns for \<^verbatim>\<open>?color=\<close>: that request supplies
  the parameter and the counter advances.
\<close>

theorem empty_color_parameter_advances_counter_counterexample:
  "nextColorIndex initial = 0 \<and>
   nextColorIndex (snd (on_connect 1 (Some ''alice'') (Some '''') ''g1'' 0 initial)) = 1"
  by (simp add: on_connect_counter choose_color_def initial_def playerColors_def)

text \<open>
  C10 as amended. A connect with a non-empty \<^verbatim>\<open>color\<close> parameter stores that colour and
  leaves the counter unchanged. A connect with no \<^verbatim>\<open>color\<close> parameter, or an empty one,
  stores the palette entry at the counter and advances the counter by one modulo the
  palette size, which is 8. The handlers for close, error, the tick, \<^verbatim>\<open>updatePosition\<close>,
  \<^verbatim>\<open>placeBomb\<close> and \<^verbatim>\<open>chat\<close> leave the counter as it is.
\<close>

theorem color_counter_moves_only_on_palette_assignment:
  "(color_param = Some c \<and> c \<noteq> [] \<longrightarrow>
      nextColorIndex (snd (on_connect ws username color_param generated now s)) = nextColorIndex s \<and>
      map_option color
        (map_of (players (snd (on_connect ws username color_param generated now s)))
           (choose_id username generated)) = Some (JStr c)) \<and>
   (color_param = None \<or> color_param = Some [] \<longrightarrow>
      nextColorIndex (snd (on_connect ws username color_param generated now s)) =
        (nextColorIndex s + 1) mod length playerColors \<and>
      map_option color
        (map_of (players (snd (on_connect ws username color_param generated now s)))
           (choose_id username generated)) = Some (palette (nextColorIndex s))) \<and>
   length playerColors = 8 \<and>
   nextColorIndex (on_close k s) = nextColorIndex s \<and>
   nextColorIndex (on_error k s) = nextColorIndex s \<and>
   nextColorIndex (syncGameState now s) = nextColorIndex s \<and>
   nextColorIndex (updatePlayerPosition k data now s) = nextColorIndex s \<and>
   nextColorIndex (handleBombPlacement k data s) = nextColorIndex s \<and>
   nextColorIndex (snd (broadcastChat tn k m s)) = nextColorIndex s"
  by (auto simp: on_connect_counter on_connect_players update_conv' choose_color_def
      playerColors_def new_player_def)

theorem color_counter_moves_only_on_palette_assignment_witness:
  "nextColorIndex (snd (on_connect 1 (Some ''alice'') (Some ''#123456'') ''g1'' 0 initial)) = 0 \<and>
   nextColorIndex (snd (on_connect 1 (Some ''alice'') None ''g1'' 0 initial)) = 1 \<and>
   map_option color
     (map_of (players (snd (on_connect 1 (Some ''alice'') None ''g1'' 0 initial))) ''alice'') =
     Some (JStr ''#FF4136'')"
proof -
  have a: "nextColorIndex (snd (on_connect 1 (Some ''alice'') (Some ''#123456'') ''g1'' 0 initial)) =
      nextColorIndex initial"
    using color_counter_moves_only_on_palette_assignment [of "Some ''#123456''" "''#123456''" 1 "Some ''alice''" "''g1''" 0 initial]
    by simp
  have b: "nextColorIndex (snd (on_connect 1 (Some ''alice'') None ''g1'' 0 initial)) =
      (nextColorIndex initial + 1) mod length playerColors"
    and c: "map_option color
        (map_of (players (snd (on_connect 1 (Some ''alice'') None ''g1'' 0 initial)))
           (choose_id (Some ''alice'') ''g1'')) = Some (palette (nextColorIndex initial))"
    using color_counter_moves_only_on_palette_assignment [of None "''''" 1 "Some ''alice''" "''g1''" 0 initial]
    by simp_all
  have "choose_id (Some ''alice'') ''g1'' = ''alice''" "nextColorIndex initial = 0"
    "palette 0 = JStr ''#FF4136''"
    by (simp_all add: choose_id_def initial_def palette_def playerColors_def)
  with a b c show ?thesis by (simp add: playerColors_def)
qed

end
